theory Spec2Isabelle
  imports Complex_Main "HOL-Library.AList"
begin

section \<open>Shopping-cart cost optimisation: the model of \<^verbatim>\<open>main.py\<close>\<close>

text \<open>
  The program reads a cart document, builds a mixed-integer program with PuLP, hands it to
  the CBC solver and decodes the solver's variable values into a purchase plan grouped by
  seller. The embedding follows the source function by function:
  \<^item> Python dictionaries keep their insertion order and are iterated over, so a dictionary
    is an association list with distinct keys; \<open>d[k] = v\<close> is \<open>AList.update k v d\<close>
    (replace in place, or append at the end), \<open>d[k]\<close> is \<open>getitem\<close>, which raises
    \<open>KeyError\<close> on a missing key;
  \<^item> a raised exception is the left summand of \<open>error + 'a\<close>;
  \<^item> the solver is outside the program: it is a parameter that maps the built problem to
    a status and a value (a float, or \<open>None\<close>) for each variable. The only operations
    the program applies to these floats are comparison with \<open>0\<close>, truthiness,
    \<open>int()\<close> and \<open>round()\<close>, all of which are exact, so a finite float is modelled by
    the rational number it denotes;
  \<^item> what the program prints, and the call of the solver, are events of a trace.
\<close>

subsection \<open>Constants (lines 6 to 9)\<close>

definition SMALL_DEL :: int where "SMALL_DEL = 132"
definition MED_DEL :: int where "MED_DEL = 237"
definition BIG_DEL :: int where "BIG_DEL = 2000"
definition BIG_M :: int where "BIG_M = 100000"

subsection \<open>Errors and dictionary access\<close>

datatype error = KeyError

definition bind_err :: "error + 'a \<Rightarrow> ('a \<Rightarrow> error + 'b) \<Rightarrow> error + 'b" where
  "bind_err m f = (case m of Inl e \<Rightarrow> Inl e | Inr v \<Rightarrow> f v)"

fun mapM_err :: "('a \<Rightarrow> error + 'b) \<Rightarrow> 'a list \<Rightarrow> error + 'b list" where
  "mapM_err f [] = Inr []"
| "mapM_err f (x # xs) =
     bind_err (f x) (\<lambda>y. bind_err (mapM_err f xs) (\<lambda>ys. Inr (y # ys)))"

fun filterM_err :: "('a \<Rightarrow> error + bool) \<Rightarrow> 'a list \<Rightarrow> error + 'a list" where
  "filterM_err p [] = Inr []"
| "filterM_err p (x # xs) =
     bind_err (p x) (\<lambda>b. bind_err (filterM_err p xs) (\<lambda>ys. Inr (if b then x # ys else ys)))"

text \<open>\<open>d[k]\<close> on a plain dictionary.\<close>

definition getitem :: "('k \<times> 'v) list \<Rightarrow> 'k \<Rightarrow> error + 'v" where
  "getitem d k = (case map_of d k of None \<Rightarrow> Inl KeyError | Some v \<Rightarrow> Inr v)"

text \<open>\<open>d.get(k, 0)\<close>.\<close>

definition get_or0 :: "('k \<times> int) list \<Rightarrow> 'k \<Rightarrow> int" where
  "get_or0 d k = (case map_of d k of None \<Rightarrow> 0 | Some v \<Rightarrow> v)"

text \<open>
  \<open>d[k].append(v)\<close> on a \<open>defaultdict(list)\<close>: a missing key is first inserted, at the
  end, with the empty list.
\<close>

definition dd_append :: "('k \<times> 'v list) list \<Rightarrow> 'k \<Rightarrow> 'v \<Rightarrow> ('k \<times> 'v list) list" where
  "dd_append d k v =
     (case map_of d k of None \<Rightarrow> d @ [(k, [v])] | Some vs \<Rightarrow> AList.update k (vs @ [v]) d)"

text \<open>
  \<open>d[k]\<close> read on a \<open>defaultdict(list)\<close>. The program reads it only at keys taken from
  the dictionary itself, where no entry is created.
\<close>

definition dd_get :: "('k \<times> 'v list) list \<Rightarrow> 'k \<Rightarrow> 'v list" where
  "dd_get d k = (case map_of d k of None \<Rightarrow> [] | Some vs \<Rightarrow> vs)"

subsection \<open>Decimal formatting of an index in an f-string\<close>

definition digit_char :: "nat \<Rightarrow> char" where
  "digit_char d = ''0123456789'' ! d"

fun str_nat :: "nat \<Rightarrow> string" where
  "str_nat n = (if n < 10 then [digit_char n] else str_nat (n div 10) @ [digit_char (n mod 10)])"

declare str_nat.simps [simp del]

subsection \<open>The input document and the catalog (\<open>load_cart\<close>, lines 11 to 46)\<close>

text \<open>
  The parsed JSON document: a list of item records, each with a list of seller records.
\<close>

record json_offer =
  name :: string
  offer_cost :: int
  offer_available :: int

record json_item =
  amount :: int
  url :: string
  sellers :: "json_offer list"

text \<open>A value of \<open>offer_catalog\<close> (lines 35 to 40).\<close>

record offer =
  item_id :: string
  cost :: int
  available :: int
  seller :: string

text \<open>
  The six structures \<open>load_cart\<close> returns. The local list \<open>item_ids\<close> of line 16 is
  filled and never read, so it is left out.
\<close>

record cart =
  items_needed :: "(string \<times> int) list"
  item_id_to_url :: "(string \<times> string) list"
  offer_catalog :: "(string \<times> offer) list"
  offer_ids :: "string list"
  offer_to_seller :: "(string \<times> string) list"
  seller_to_offers :: "(string \<times> string list) list"

definition empty_cart :: cart where
  "empty_cart = \<lparr>items_needed = [], item_id_to_url = [], offer_catalog = [], offer_ids = [],
     offer_to_seller = [], seller_to_offers = []\<rparr>"

text \<open>Line 24: \<open>f"item_{item_index}"\<close>.\<close>

definition mk_item_id :: "nat \<Rightarrow> string" where
  "mk_item_id item_index = ''item_'' @ str_nat item_index"

text \<open>Line 34: \<open>f"{base_seller}_{item_index}_{offer_index}"\<close>.\<close>

definition mk_offer_id :: "string \<Rightarrow> nat \<Rightarrow> nat \<Rightarrow> string" where
  "mk_offer_id base_seller item_index offer_index =
     base_seller @ ''_'' @ str_nat item_index @ ''_'' @ str_nat offer_index"

text \<open>Lines 33 to 44: one offer that passed the availability test is recorded.\<close>

definition add_offer :: "nat \<Rightarrow> nat \<Rightarrow> json_offer \<Rightarrow> cart \<Rightarrow> cart" where
  "add_offer item_index offer_index ofr c =
     (let base_seller = name ofr;
          oid = mk_offer_id base_seller item_index offer_index
      in c\<lparr>offer_catalog := AList.update oid
               \<lparr>item_id = mk_item_id item_index, cost = offer_cost ofr,
                available = offer_available ofr, seller = base_seller\<rparr> (offer_catalog c),
            offer_ids := offer_ids c @ [oid],
            offer_to_seller := AList.update oid base_seller (offer_to_seller c),
            seller_to_offers := dd_append (seller_to_offers c) base_seller oid\<rparr>)"

text \<open>The inner loop (lines 29 to 44), from offer index \<open>offer_index\<close> on.\<close>

fun load_offers :: "nat \<Rightarrow> nat \<Rightarrow> json_offer list \<Rightarrow> cart \<Rightarrow> cart" where
  "load_offers item_index offer_index [] c = c"
| "load_offers item_index offer_index (ofr # rest) c =
     (if offer_available ofr \<le> 0 then load_offers item_index (Suc offer_index) rest c
      else load_offers item_index (Suc offer_index) rest (add_offer item_index offer_index ofr c))"

text \<open>The outer loop (lines 23 to 44), from item index \<open>item_index\<close> on.\<close>

fun load_items :: "nat \<Rightarrow> json_item list \<Rightarrow> cart \<Rightarrow> cart" where
  "load_items item_index [] c = c"
| "load_items item_index (item # rest) c =
     load_items (Suc item_index) rest
       (load_offers item_index 0 (sellers item)
          (c\<lparr>items_needed := AList.update (mk_item_id item_index) (amount item) (items_needed c),
             item_id_to_url := AList.update (mk_item_id item_index) (url item) (item_id_to_url c)\<rparr>))"

definition load_cart :: "json_item list \<Rightarrow> cart" where
  "load_cart data = load_items 0 data empty_cart"

subsection \<open>The mixed-integer program (lines 52 to 95)\<close>

text \<open>
  One constructor for each of the six \<open>LpVariable.dicts\<close> families, indexed by the
  dictionary key. A variable is identified by its family and key; the name PuLP derives
  from them for the solver's input file is not modelled.
\<close>

datatype var =
    Buy string
  | Use_seller string
  | Qty_seller string
  | Small_del string
  | Med_del string
  | Big_del string

datatype category = LpInteger | LpBinary

record var_decl =
  decl_var :: var
  lowBound :: "int option"
  upBound :: "int option"
  cat :: category

text \<open>Affine expressions as the source writes them.\<close>

datatype lexpr =
    Const int
  | V var
  | Add lexpr lexpr
  | Sub lexpr lexpr
  | Mul lexpr lexpr
  | LpSum "lexpr list"

datatype sense = LE | GE | EQ

datatype constraint = Constraint lexpr sense lexpr

record lp_problem =
  variables :: "var_decl list"
  objective :: lexpr
  constraints :: "constraint list"

text \<open>
  Every variable of the program is declared \<open>LpInteger\<close> or \<open>LpBinary\<close>, so a point of
  the program's search space gives each variable an integer.
\<close>

fun eval :: "(var \<Rightarrow> int) \<Rightarrow> lexpr \<Rightarrow> int" where
  "eval a (Const k) = k"
| "eval a (V v) = a v"
| "eval a (Add e1 e2) = eval a e1 + eval a e2"
| "eval a (Sub e1 e2) = eval a e1 - eval a e2"
| "eval a (Mul e1 e2) = eval a e1 * eval a e2"
| "eval a (LpSum es) = sum_list (map (eval a) es)"

fun holds :: "(var \<Rightarrow> int) \<Rightarrow> constraint \<Rightarrow> bool" where
  "holds a (Constraint l LE r) = (eval a l \<le> eval a r)"
| "holds a (Constraint l GE r) = (eval a l \<ge> eval a r)"
| "holds a (Constraint l EQ r) = (eval a l = eval a r)"

definition in_bounds :: "(var \<Rightarrow> int) \<Rightarrow> var_decl \<Rightarrow> bool" where
  "in_bounds a d =
     ((case lowBound d of None \<Rightarrow> True | Some l \<Rightarrow> l \<le> a (decl_var d)) \<and>
      (case upBound d of None \<Rightarrow> True | Some u \<Rightarrow> a (decl_var d) \<le> u))"

definition feasible :: "lp_problem \<Rightarrow> (var \<Rightarrow> int) \<Rightarrow> bool" where
  "feasible p a =
     (list_all (in_bounds a) (variables p) \<and> list_all (holds a) (constraints p))"

text \<open>Line 49 and line 50.\<close>

definition sellers_of :: "cart \<Rightarrow> string list" where
  "sellers_of c = map fst (seller_to_offers c)"

definition item_ids_of :: "cart \<Rightarrow> string list" where
  "item_ids_of c = map fst (items_needed c)"

text \<open>Lines 55 to 60.\<close>

definition declare_vars :: "cart \<Rightarrow> var_decl list" where
  "declare_vars c =
     map (\<lambda>oid. \<lparr>decl_var = Buy oid, lowBound = Some 0, upBound = None, cat = LpInteger\<rparr>) (offer_ids c)
   @ map (\<lambda>s. \<lparr>decl_var = Use_seller s, lowBound = Some 0, upBound = Some 1, cat = LpBinary\<rparr>) (sellers_of c)
   @ map (\<lambda>s. \<lparr>decl_var = Qty_seller s, lowBound = Some 0, upBound = None, cat = LpInteger\<rparr>) (sellers_of c)
   @ map (\<lambda>s. \<lparr>decl_var = Small_del s, lowBound = Some 0, upBound = Some 1, cat = LpBinary\<rparr>) (sellers_of c)
   @ map (\<lambda>s. \<lparr>decl_var = Med_del s, lowBound = Some 0, upBound = Some 1, cat = LpBinary\<rparr>) (sellers_of c)
   @ map (\<lambda>s. \<lparr>decl_var = Big_del s, lowBound = Some 0, upBound = Some 1, cat = LpBinary\<rparr>) (sellers_of c)"

text \<open>
  \<open>x[o]\<close>: the dictionary \<open>x\<close> has exactly the keys of \<open>offer_ids\<close>.
\<close>

definition buy_var :: "cart \<Rightarrow> string \<Rightarrow> error + var" where
  "buy_var c oid = (if oid \<in> set (offer_ids c) then Inr (Buy oid) else Inl KeyError)"

text \<open>Lines 63 to 66.\<close>

definition delivery_term :: "string \<Rightarrow> lexpr" where
  "delivery_term s =
     Add (Add (Mul (Const SMALL_DEL) (V (Small_del s))) (Mul (Const MED_DEL) (V (Med_del s))))
         (Mul (Const BIG_DEL) (V (Big_del s)))"

definition objective_expr :: "cart \<Rightarrow> error + lexpr" where
  "objective_expr c =
     bind_err (mapM_err (\<lambda>oid. bind_err (getitem (offer_catalog c) oid)
                               (\<lambda>r. Inr (Mul (V (Buy oid)) (Const (cost r))))) (offer_ids c))
       (\<lambda>item_terms. Inr (Add (LpSum item_terms) (LpSum (map delivery_term (sellers_of c)))))"

text \<open>Lines 70 and 71, for one item.\<close>

definition offers_of_item :: "cart \<Rightarrow> string \<Rightarrow> error + string list" where
  "offers_of_item c iid =
     filterM_err (\<lambda>oid. bind_err (getitem (offer_catalog c) oid) (\<lambda>r. Inr (item_id r = iid)))
       (offer_ids c)"

definition demand_constraint :: "cart \<Rightarrow> string \<Rightarrow> error + constraint" where
  "demand_constraint c iid =
     bind_err (offers_of_item c iid) (\<lambda>offers.
     bind_err (getitem (items_needed c) iid) (\<lambda>needed.
       Inr (Constraint (LpSum (map (\<lambda>oid. V (Buy oid)) offers)) EQ (Const needed))))"

text \<open>Line 75, for one offer.\<close>

definition stock_constraint :: "cart \<Rightarrow> string \<Rightarrow> error + constraint" where
  "stock_constraint c oid =
     bind_err (getitem (offer_catalog c) oid) (\<lambda>r.
       Inr (Constraint (V (Buy oid)) LE (Const (available r))))"

text \<open>Lines 79 to 81, for one seller.\<close>

definition link_constraints :: "cart \<Rightarrow> string \<Rightarrow> error + constraint list" where
  "link_constraints c s =
     bind_err (mapM_err (buy_var c) (dd_get (seller_to_offers c) s)) (\<lambda>xs.
     bind_err (mapM_err (\<lambda>oid. bind_err (buy_var c oid) (\<lambda>x.
                              bind_err (getitem (offer_catalog c) oid) (\<lambda>r.
                                Inr (Constraint (V x) LE (Mul (Const (available r)) (V (Use_seller s)))))))
                 (dd_get (seller_to_offers c) s)) (\<lambda>links.
       Inr (Constraint (V (Qty_seller s)) EQ (LpSum (map V xs)) # links)))"

text \<open>Lines 85 to 95, for one seller.\<close>

definition tier_constraints :: "string \<Rightarrow> constraint list" where
  "tier_constraints s =
     [Constraint (Add (Add (V (Small_del s)) (V (Med_del s))) (V (Big_del s))) EQ (V (Use_seller s)),
      Constraint (V (Qty_seller s)) LE (Add (Const 4) (Mul (Sub (Const 1) (V (Small_del s))) (Const BIG_M))),
      Constraint (V (Qty_seller s)) GE (Mul (Const 5) (V (Med_del s))),
      Constraint (V (Qty_seller s)) LE (Add (Const 20) (Mul (Sub (Const 1) (V (Med_del s))) (Const BIG_M))),
      Constraint (V (Qty_seller s)) GE (Mul (Const 21) (V (Big_del s)))]"

text \<open>Lines 52 to 95: the problem handed to the solver.\<close>

definition build_problem :: "cart \<Rightarrow> error + lp_problem" where
  "build_problem c =
     bind_err (objective_expr c) (\<lambda>obj.
     bind_err (mapM_err (demand_constraint c) (item_ids_of c)) (\<lambda>demand.
     bind_err (mapM_err (stock_constraint c) (offer_ids c)) (\<lambda>stock.
     bind_err (mapM_err (link_constraints c) (sellers_of c)) (\<lambda>links.
       Inr \<lparr>variables = declare_vars c, objective = obj,
            constraints = demand @ stock @ concat links
                          @ concat (map tier_constraints (sellers_of c))\<rparr>))))"

subsection \<open>The solver's answer\<close>

text \<open>The status names of PuLP's \<open>LpStatus\<close> table.\<close>

datatype lp_status = Not_Solved | Optimal | Infeasible | Unbounded | Undefined

record solution =
  status :: lp_status
  varValue :: "var \<Rightarrow> rat option"

type_synonym solver = "lp_problem \<Rightarrow> solution"

subsection \<open>Decoding the solution (lines 104 to 134)\<close>

text \<open>\<open>int(q)\<close> on a float truncates towards zero.\<close>

definition py_int :: "rat \<Rightarrow> int" where
  "py_int q = (if 0 \<le> q then \<lfloor>q\<rfloor> else \<lceil>q\<rceil>)"

text \<open>\<open>round(q)\<close> on a float rounds to the nearest integer, a tie to the even one.\<close>

definition py_round :: "rat \<Rightarrow> int" where
  "py_round q =
     (let f = \<lfloor>q\<rfloor>; d = q - of_int f
      in if d < 1 / 2 then f else if 1 / 2 < d then f + 1 else if even f then f else f + 1)"

text \<open>\<open>v or 0\<close>: \<open>None\<close> and \<open>0.0\<close> both give \<open>0\<close>.\<close>

definition or0 :: "rat option \<Rightarrow> rat" where
  "or0 v = (case v of None \<Rightarrow> 0 | Some q \<Rightarrow> q)"

type_synonym orders = "(string \<times> string \<times> int) list"

text \<open>Lines 106 to 110: the loop over \<open>offer_ids\<close>, with the dictionary built so far.\<close>

fun extract_assignment ::
  "cart \<Rightarrow> (var \<Rightarrow> rat option) \<Rightarrow> string list \<Rightarrow> (string \<times> orders) list
     \<Rightarrow> error + (string \<times> orders) list" where
  "extract_assignment c val [] asg = Inr asg"
| "extract_assignment c val (oid # os) asg =
     (case val (Buy oid) of
        None \<Rightarrow> extract_assignment c val os asg
      | Some qty \<Rightarrow>
          if qty \<noteq> 0 \<and> 0 < qty then
            bind_err (getitem (offer_to_seller c) oid) (\<lambda>sel.
            bind_err (getitem (offer_catalog c) oid) (\<lambda>r.
              extract_assignment c val os (dd_append asg sel (item_id r, oid, py_int qty))))
          else extract_assignment c val os asg)"

text \<open>Lines 115 to 126, for one seller.\<close>

definition delivery_cost_of :: "(var \<Rightarrow> rat option) \<Rightarrow> string \<Rightarrow> int" where
  "delivery_cost_of val s =
     (let z1_val = or0 (val (Small_del s));
          z2_val = or0 (val (Med_del s));
          z3_val = or0 (val (Big_del s))
      in if py_round z1_val = 1 then SMALL_DEL
         else if py_round z2_val = 1 then MED_DEL
         else if py_round z3_val = 1 then BIG_DEL
         else 0)"

text \<open>Lines 113 to 126.\<close>

definition extract_delivery_costs ::
  "(var \<Rightarrow> rat option) \<Rightarrow> string list \<Rightarrow> (string \<times> int) list" where
  "extract_delivery_costs val ss =
     fold (\<lambda>s d. AList.update s (delivery_cost_of val s) d) ss []"

text \<open>Lines 129 to 132.\<close>

definition orders_cost :: "cart \<Rightarrow> orders \<Rightarrow> error + int" where
  "orders_cost c ords =
     bind_err (mapM_err (\<lambda>(_, oid, qty). bind_err (getitem (offer_catalog c) oid)
                                            (\<lambda>r. Inr (cost r * qty))) ords)
       (\<lambda>cs. Inr (sum_list cs))"

definition compute_total_cost ::
  "cart \<Rightarrow> (string \<times> orders) list \<Rightarrow> (string \<times> int) list \<Rightarrow> error + int" where
  "compute_total_cost c asg dc =
     bind_err (mapM_err (\<lambda>(sel, ords). bind_err (orders_cost c ords)
                                          (\<lambda>t. Inr (t + get_or0 dc sel))) asg)
       (\<lambda>ts. Inr (sum_list ts))"

record result =
  assignment :: "(string \<times> orders) list"
  delivery_costs :: "(string \<times> int) list"
  total_cost :: int

definition extract_result :: "cart \<Rightarrow> (var \<Rightarrow> rat option) \<Rightarrow> error + result" where
  "extract_result c val =
     bind_err (extract_assignment c val (offer_ids c) []) (\<lambda>asg.
       let dc = extract_delivery_costs val (sellers_of c)
       in bind_err (compute_total_cost c asg dc) (\<lambda>total.
            Inr \<lparr>assignment = asg, delivery_costs = dc, total_cost = total\<rparr>))"

subsection \<open>\<open>solve_shopping_problem\<close> and \<open>main\<close>\<close>

text \<open>
  What the run does to the outside: the lines it prints, and the call of the solver with
  the problem it was given. \<open>print_result\<close> only formats the result it receives and is
  one event.
\<close>

datatype event =
    Print_checking
  | Print_availability string int int
  | Print_not_enough_stock
  | Print_solving
  | Call_solver lp_problem
  | Print_no_optimal
  | Print_result result

text \<open>Lines 48 to 134. The Python \<open>None\<close> of line 102 is \<open>None\<close>.\<close>

definition solve_shopping_problem :: "solver \<Rightarrow> cart \<Rightarrow> error + (event list \<times> result option)" where
  "solve_shopping_problem slv c =
     bind_err (build_problem c) (\<lambda>prob.
       let sol = slv prob in
       if status sol \<noteq> Optimal then Inr ([Print_solving, Call_solver prob, Print_no_optimal], None)
       else bind_err (extract_result c (varValue sol)) (\<lambda>r.
              Inr ([Print_solving, Call_solver prob], Some r)))"

text \<open>Lines 171 to 175.\<close>

definition total_available :: "cart \<Rightarrow> string \<Rightarrow> error + int" where
  "total_available c iid =
     bind_err (offers_of_item c iid) (\<lambda>offers.
     bind_err (mapM_err (\<lambda>oid. bind_err (getitem (offer_catalog c) oid) (\<lambda>r. Inr (available r))) offers)
       (\<lambda>avs. Inr (sum_list avs)))"

text \<open>
  Lines 170 to 179: the loop over the items still to check. The flag is \<open>False\<close> when the
  loop left \<open>main\<close> through the \<open>return\<close> of line 179.
\<close>

fun check_availability :: "cart \<Rightarrow> string list \<Rightarrow> error + (event list \<times> bool)" where
  "check_availability c [] = Inr ([], True)"
| "check_availability c (iid # rest) =
     bind_err (total_available c iid) (\<lambda>avail.
     bind_err (getitem (item_id_to_url c) iid) (\<lambda>u.
     bind_err (getitem (items_needed c) iid) (\<lambda>needed.
       if avail < needed then Inr ([Print_availability u needed avail, Print_not_enough_stock], False)
       else bind_err (check_availability c rest) (\<lambda>(evs, ok).
              Inr (Print_availability u needed avail # evs, ok)))))"

text \<open>Lines 159 to 192, on the parsed document.\<close>

definition main :: "solver \<Rightarrow> json_item list \<Rightarrow> error + event list" where
  "main slv data =
     (let c = load_cart data in
      bind_err (check_availability c (item_ids_of c)) (\<lambda>(evs, ok).
        if \<not> ok then Inr (Print_checking # evs)
        else bind_err (solve_shopping_problem slv c) (\<lambda>(evs2, res).
               Inr (Print_checking # evs @ evs2 @
                    (case res of None \<Rightarrow> [] | Some r \<Rightarrow> [Print_result r])))))"

subsection \<open>Invariants of the catalog\<close>

text \<open>
  \<open>ids_below c i j\<close>: every offer identifier recorded so far was made at an (item, offer)
  index pair before \<open>(i, j)\<close>. \<open>cart_wf\<close> collects what the six structures of a
  catalog built by \<open>load_cart\<close> have in common: the same offers in the same order, every
  offer with stock, an item of the catalog and its seller, and the per-seller lists in step
  with \<open>offer_to_seller\<close>.
\<close>

definition ids_below :: "cart \<Rightarrow> nat \<Rightarrow> nat \<Rightarrow> bool" where
  "ids_below c i j =
     (\<forall>oid \<in> set (offer_ids c). \<exists>s i' j'. oid = mk_offer_id s i' j' \<and> (i' < i \<or> i' = i \<and> j' < j))"

definition cart_wf :: "cart \<Rightarrow> bool" where
  "cart_wf c =
     (distinct (offer_ids c) \<and>
      distinct (sellers_of c) \<and>
      distinct (item_ids_of c) \<and>
      map fst (offer_catalog c) = offer_ids c \<and>
      map fst (offer_to_seller c) = offer_ids c \<and>
      map fst (item_id_to_url c) = item_ids_of c \<and>
      (\<forall>(oid, r) \<in> set (offer_catalog c).
         0 < available r \<and> item_id r \<in> set (item_ids_of c) \<and>
         map_of (offer_to_seller c) oid = Some (seller r)) \<and>
      (\<forall>s. dd_get (seller_to_offers c) s =
            filter (\<lambda>oid. map_of (offer_to_seller c) oid = Some s) (offer_ids c)))"

subsection \<open>Example documents\<close>

text \<open>
  One item, three units needed; seller \<open>B\<close> is out of stock, seller \<open>A\<close> has ten units.
  \<open>cart_one\<close> is the catalog \<open>load_cart\<close> builds from it.
\<close>

definition doc_one :: "json_item list" where
  "doc_one = [\<lparr>amount = 3, url = ''u0'', sellers =
      [\<lparr>name = ''B'', offer_cost = 12, offer_available = 0\<rparr>,
       \<lparr>name = ''A'', offer_cost = 10, offer_available = 10\<rparr>]\<rparr>]"

definition cart_one :: cart where
  "cart_one = \<lparr>items_needed = [(''item_0'', 3)], item_id_to_url = [(''item_0'', ''u0'')],
     offer_catalog = [(''A_0_1'', \<lparr>item_id = ''item_0'', cost = 10, available = 10, seller = ''A''\<rparr>)],
     offer_ids = [''A_0_1''], offer_to_seller = [(''A_0_1'', ''A'')],
     seller_to_offers = [(''A'', [''A_0_1''])]\<rparr>"

subsection \<open>Reading a catalog\<close>

text \<open>
  The record stored for an offer identifier. It is used only where the identifier is a key
  of \<open>offer_catalog\<close>, which is where \<open>getitem\<close> returns it.
\<close>

definition catalog_entry :: "cart \<Rightarrow> string \<Rightarrow> offer" where
  "catalog_entry c oid = the (map_of (offer_catalog c) oid)"

subsection \<open>What the decoding loop records\<close>

text \<open>
  \<open>bought\<close> is the test of line 108; \<open>order_of\<close> is the triple line 110 appends;
  \<open>decoded_assignment\<close> is the loop of lines 106 to 110 with the dictionary reads
  replaced by \<open>catalog_entry\<close>; \<open>all_orders\<close> lists the triples of every seller;
  \<open>recomputed_total\<close> is the sum of lines 129 to 132 with the same replacement.
\<close>

definition bought :: "(var \<Rightarrow> rat option) \<Rightarrow> string \<Rightarrow> bool" where
  "bought val oid = (case val (Buy oid) of None \<Rightarrow> False | Some qty \<Rightarrow> qty \<noteq> 0 \<and> 0 < qty)"

definition order_of :: "cart \<Rightarrow> (var \<Rightarrow> rat option) \<Rightarrow> string \<Rightarrow> string \<times> string \<times> int" where
  "order_of c val oid = (item_id (catalog_entry c oid), oid, py_int (or0 (val (Buy oid))))"

definition all_orders :: "(string \<times> orders) list \<Rightarrow> orders" where
  "all_orders asg = concat (map snd asg)"

definition recomputed_total :: "cart \<Rightarrow> (string \<times> orders) list \<Rightarrow> (string \<times> int) list \<Rightarrow> int" where
  "recomputed_total c asg dc =
     (\<Sum>(sel, ords)\<leftarrow>asg. (\<Sum>(it, oid, qty)\<leftarrow>ords. cost (catalog_entry c oid) * qty) + get_or0 dc sel)"

definition decoded_assignment :: "cart \<Rightarrow> (var \<Rightarrow> rat option) \<Rightarrow> (string \<times> orders) list" where
  "decoded_assignment c val =
     fold (\<lambda>oid a. if bought val oid
                    then dd_append a (seller (catalog_entry c oid)) (order_of c val oid) else a)
       (offer_ids c) []"

subsection \<open>Reading a purchase plan\<close>


definition plan_item_qty :: "(string \<times> orders) list \<Rightarrow> string \<Rightarrow> int" where
  "plan_item_qty asg iid = (\<Sum>(it, oid, qty)\<leftarrow>all_orders asg. if it = iid then qty else 0)"

definition orders_qty :: "orders \<Rightarrow> int" where
  "orders_qty ords = (\<Sum>(it, oid, qty)\<leftarrow>ords. qty)"


definition a_one :: "var \<Rightarrow> int" where
  "a_one v = (case v of Buy _ \<Rightarrow> 3 | Use_seller _ \<Rightarrow> 1 | Qty_seller _ \<Rightarrow> 3
                | Small_del _ \<Rightarrow> 1 | Med_del _ \<Rightarrow> 0 | Big_del _ \<Rightarrow> 0)"

definition sol_one :: solution where
  "sol_one = \<lparr>status = Optimal, varValue = (\<lambda>v. Some (of_int (a_one v)))\<rparr>"

definition slv_one :: solver where
  "slv_one p = sol_one"

definition prob_one :: lp_problem where
  "prob_one = projr (build_problem cart_one)"

subsection \<open>The solver's contract\<close>

text \<open>
  \<open>exact_solution p sol a\<close>: the solver answered \<open>Optimal\<close>, \<open>a\<close> satisfies the bounds
  and the constraints of \<open>p\<close>, and the value the solver reports for every declared
  variable is exactly the integer \<open>a\<close> gives it.
\<close>

definition exact_solution :: "lp_problem \<Rightarrow> solution \<Rightarrow> (var \<Rightarrow> int) \<Rightarrow> bool" where
  "exact_solution p sol a =
     (status sol = Optimal \<and> feasible p a \<and>
      list_all (\<lambda>d. varValue sol (decl_var d) = Some (of_int (a (decl_var d)))) (variables p))"

subsection \<open>Stock of an item\<close>

text \<open>
  The available quantity of an item summed over its offers in the catalog, and a document
  whose only item needs five units while two are on offer.
\<close>

definition item_stock :: "cart \<Rightarrow> string \<Rightarrow> int" where
  "item_stock c iid = (\<Sum>(oid, r)\<leftarrow>offer_catalog c. if item_id r = iid then available r else 0)"

definition doc_short :: "json_item list" where
  "doc_short = [\<lparr>amount = 5, url = ''u0'', sellers =
      [\<lparr>name = ''A'', offer_cost = 10, offer_available = 2\<rparr>]\<rparr>]"

subsection \<open>Further example solvers and documents\<close>

text \<open>
  Two solvers that do not reach an optimum, one reporting infeasibility and one reporting
  no solution at all. \<open>doc_two\<close> has one item, one unit needed, on offer from sellers
  \<open>A\<close> and \<open>B\<close>; \<open>cart_two\<close> is its catalog and \<open>prob_two\<close> its problem; \<open>a_two\<close>
  buys the unit from \<open>A\<close> and also switches on the small tier of \<open>B\<close>, from which it
  buys nothing.
\<close>

definition slv_infeasible :: solver where
  "slv_infeasible p = \<lparr>status = Infeasible, varValue = (\<lambda>v. None)\<rparr>"

definition slv_failed :: solver where
  "slv_failed p = \<lparr>status = Undefined, varValue = (\<lambda>v. None)\<rparr>"

definition doc_two :: "json_item list" where
  "doc_two = [\<lparr>amount = 1, url = ''u0'', sellers =
      [\<lparr>name = ''A'', offer_cost = 10, offer_available = 1\<rparr>,
       \<lparr>name = ''B'', offer_cost = 10, offer_available = 1\<rparr>]\<rparr>]"

definition cart_two :: cart where
  "cart_two = \<lparr>items_needed = [(''item_0'', 1)], item_id_to_url = [(''item_0'', ''u0'')],
     offer_catalog = [(''A_0_0'', \<lparr>item_id = ''item_0'', cost = 10, available = 1, seller = ''A''\<rparr>),
                      (''B_0_1'', \<lparr>item_id = ''item_0'', cost = 10, available = 1, seller = ''B''\<rparr>)],
     offer_ids = [''A_0_0'', ''B_0_1''], offer_to_seller = [(''A_0_0'', ''A''), (''B_0_1'', ''B'')],
     seller_to_offers = [(''A'', [''A_0_0'']), (''B'', [''B_0_1''])]\<rparr>"

definition prob_two :: lp_problem where
  "prob_two = projr (build_problem cart_two)"

definition a_two :: "var \<Rightarrow> int" where
  "a_two v = (case v of Buy oid \<Rightarrow> (if oid = ''A_0_0'' then 1 else 0)
                | Use_seller _ \<Rightarrow> 1
                | Qty_seller s \<Rightarrow> (if s = ''A'' then 1 else 0)
                | Small_del _ \<Rightarrow> 1 | Med_del _ \<Rightarrow> 0 | Big_del _ \<Rightarrow> 0)"

definition slv_two :: solver where
  "slv_two p = \<lparr>status = Optimal, varValue = (\<lambda>v. Some (of_int (a_two v)))\<rparr>"

subsection \<open>Solvers with values that are not integers\<close>

text \<open>
  \<open>slv_frac\<close> answers \<open>2.75\<close> for every \<open>buy\<close> variable. \<open>doc_unit\<close> needs one unit
  and seller \<open>A\<close> offers five; \<open>slv_near_one\<close> answers it with
  \<open>buy = 1 - 2\<^sup>-\<^sup>2\<^sup>4\<close>, a float within the solver's integrality tolerance of 1.
\<close>

definition slv_frac :: solver where
  "slv_frac p = \<lparr>status = Optimal,
     varValue = (\<lambda>v. case v of Buy _ \<Rightarrow> Some (11 / 4) | _ \<Rightarrow> Some (of_int (a_one v)))\<rparr>"

definition doc_unit :: "json_item list" where
  "doc_unit = [\<lparr>amount = 1, url = ''u0'', sellers =
      [\<lparr>name = ''A'', offer_cost = 10, offer_available = 5\<rparr>]\<rparr>]"

definition cart_unit :: cart where
  "cart_unit = \<lparr>items_needed = [(''item_0'', 1)], item_id_to_url = [(''item_0'', ''u0'')],
     offer_catalog = [(''A_0_0'', \<lparr>item_id = ''item_0'', cost = 10, available = 5, seller = ''A''\<rparr>)],
     offer_ids = [''A_0_0''], offer_to_seller = [(''A_0_0'', ''A'')],
     seller_to_offers = [(''A'', [''A_0_0''])]\<rparr>"

definition prob_unit :: lp_problem where
  "prob_unit = projr (build_problem cart_unit)"

definition slv_near_one :: solver where
  "slv_near_one p = \<lparr>status = Optimal,
     varValue = (\<lambda>v. case v of Buy _ \<Rightarrow> Some (16777215 / 16777216)
                        | Use_seller _ \<Rightarrow> Some 1
                        | Qty_seller _ \<Rightarrow> Some (16777215 / 16777216)
                        | Small_del _ \<Rightarrow> Some 1
                        | Med_del _ \<Rightarrow> Some 0
                        | Big_del _ \<Rightarrow> Some 0)\<rparr>"

subsection \<open>A large order\<close>

text \<open>
  \<open>doc_big\<close> needs 100005 units of one item and seller \<open>A\<close> offers exactly as many;
  \<open>cart_big\<close> is its catalog and \<open>prob_big\<close> its problem. \<open>a_big\<close> buys them all from
  \<open>A\<close> in the large tier.
\<close>

definition doc_big :: "json_item list" where
  "doc_big = [\<lparr>amount = 100005, url = ''u0'', sellers =
      [\<lparr>name = ''A'', offer_cost = 1, offer_available = 100005\<rparr>]\<rparr>]"

definition cart_big :: cart where
  "cart_big = \<lparr>items_needed = [(''item_0'', 100005)], item_id_to_url = [(''item_0'', ''u0'')],
     offer_catalog = [(''A_0_0'', \<lparr>item_id = ''item_0'', cost = 1, available = 100005, seller = ''A''\<rparr>)],
     offer_ids = [''A_0_0''], offer_to_seller = [(''A_0_0'', ''A'')],
     seller_to_offers = [(''A'', [''A_0_0''])]\<rparr>"

definition prob_big :: lp_problem where
  "prob_big = projr (build_problem cart_big)"

definition a_big :: "var \<Rightarrow> int" where
  "a_big v = (case v of Buy _ \<Rightarrow> 100005 | Use_seller _ \<Rightarrow> 1 | Qty_seller _ \<Rightarrow> 100005
                | Small_del _ \<Rightarrow> 0 | Med_del _ \<Rightarrow> 0 | Big_del _ \<Rightarrow> 1)"

subsection \<open>Answers close to a feasible assignment\<close>

text \<open>
  \<open>near_solution p sol a tol\<close>: the solver answered \<open>Optimal\<close>, \<open>a\<close> satisfies the
  bounds and the constraints of \<open>p\<close>, and the value the solver reports for every declared
  variable is within \<open>tol\<close> of the integer \<open>a\<close> gives it. \<open>a_unit\<close> buys the one
  unit of \<open>doc_unit\<close> from seller \<open>A\<close> in the small tier.
\<close>

definition a_unit :: "var \<Rightarrow> int" where
  "a_unit v = (case v of Buy _ \<Rightarrow> 1 | Use_seller _ \<Rightarrow> 1 | Qty_seller _ \<Rightarrow> 1
                 | Small_del _ \<Rightarrow> 1 | Med_del _ \<Rightarrow> 0 | Big_del _ \<Rightarrow> 0)"

definition near_solution :: "lp_problem \<Rightarrow> solution \<Rightarrow> (var \<Rightarrow> int) \<Rightarrow> rat \<Rightarrow> bool" where
  "near_solution p sol a tol =
     (status sol = Optimal \<and> feasible p a \<and>
      list_all (\<lambda>d. case varValue sol (decl_var d) of None \<Rightarrow> False
                      | Some v \<Rightarrow> \<bar>v - of_int (a (decl_var d))\<bar> \<le> tol) (variables p))"

section \<open>Basic facts\<close>

subsection \<open>Error plumbing and dictionary access\<close>

lemma bind_err_simps [simp]:
  "bind_err (Inr v) f = f v" "bind_err (Inl e) f = Inl e"
  by (simp_all add: bind_err_def)

lemma mapM_err_Inr:
  "(\<And>x. x \<in> set xs \<Longrightarrow> f x = Inr (g x)) \<Longrightarrow> mapM_err f xs = Inr (map g xs)"
  by (induction xs) simp_all

lemma filterM_err_Inr:
  "(\<And>x. x \<in> set xs \<Longrightarrow> p x = Inr (q x)) \<Longrightarrow> filterM_err p xs = Inr (filter q xs)"
  by (induction xs) simp_all

lemma getitem_Some: "map_of d k = Some v \<Longrightarrow> getitem d k = Inr v"
  by (simp add: getitem_def)

lemma digit_char_not_underscore: "d < 10 \<Longrightarrow> digit_char d \<noteq> CHR ''_''"
proof -
  assume "d < 10"
  then have "d \<in> {0,1,2,3,4,5,6,7,8,9}" by auto
  then show ?thesis by (auto simp: digit_char_def)
qed

lemma digit_char_inj: "a < 10 \<Longrightarrow> b < 10 \<Longrightarrow> digit_char a = digit_char b \<Longrightarrow> a = b"
proof -
  assume "a < 10" "b < 10" and eq: "digit_char a = digit_char b"
  then have "a \<in> {0,1,2,3,4,5,6,7,8,9}" "b \<in> {0,1,2,3,4,5,6,7,8,9}" by auto
  with eq show ?thesis by (auto simp: digit_char_def)
qed

lemma str_nat_nonempty: "str_nat n \<noteq> []"
  by (subst str_nat.simps) simp

lemma str_nat_no_underscore: "CHR ''_'' \<notin> set (str_nat n)"
proof (induction n rule: str_nat.induct)
  case (1 n)
  show ?case
  proof (cases "n < 10")
    case True
    then show ?thesis using digit_char_not_underscore [of n]
      by (subst str_nat.simps) auto
  next
    case False
    then show ?thesis using 1 digit_char_not_underscore [of "n mod 10"]
      by (subst str_nat.simps) auto
  qed
qed

lemma str_nat_inj: "str_nat n = str_nat m \<Longrightarrow> n = m"
proof (induction n arbitrary: m rule: str_nat.induct)
  case (1 n)
  show ?case
  proof (cases "n < 10")
    case n: True
    show ?thesis
    proof (cases "m < 10")
      case True
      with n 1(2) show ?thesis
        by (simp add: str_nat.simps [of n] str_nat.simps [of m] digit_char_inj)
    next
      case False
      with n 1(2) str_nat_nonempty [of "m div 10"] show ?thesis
        by (simp add: str_nat.simps [of n] str_nat.simps [of m])
    qed
  next
    case n: False
    show ?thesis
    proof (cases "m < 10")
      case True
      with n 1(2) str_nat_nonempty [of "n div 10"] show ?thesis
        by (simp add: str_nat.simps [of n] str_nat.simps [of m])
    next
      case False
      with n 1(2) have eq: "str_nat (n div 10) = str_nat (m div 10)"
        and d: "digit_char (n mod 10) = digit_char (m mod 10)"
        by (simp_all add: str_nat.simps [of n] str_nat.simps [of m])
      from 1(1) [OF n eq] have "n div 10 = m div 10" .
      moreover from d have "n mod 10 = m mod 10" by (simp add: digit_char_inj)
      ultimately show ?thesis by (metis div_mult_mod_eq)
    qed
  qed
qed

lemma split_last_sep:
  assumes "xs @ c # ds = xs' @ c # ds'" "c \<notin> set ds" "c \<notin> set ds'"
  shows "xs = xs' \<and> ds = ds'"
proof -
  have "takeWhile (\<lambda>x. x \<noteq> c) (rev (xs @ c # ds)) = rev ds"
    using assms(2) by (auto simp add: takeWhile_tail)
  moreover have "takeWhile (\<lambda>x. x \<noteq> c) (rev (xs' @ c # ds')) = rev ds'"
    using assms(3) by (auto simp add: takeWhile_tail)
  ultimately have "ds = ds'" using assms(1) by (metis rev_rev_ident)
  with assms(1) show ?thesis by simp
qed

lemma mk_offer_id_inj:
  assumes "mk_offer_id s i j = mk_offer_id s' i' j'"
  shows "s = s' \<and> i = i' \<and> j = j'"
proof -
  from assms have "(s @ ''_'' @ str_nat i) @ CHR ''_'' # str_nat j
      = (s' @ ''_'' @ str_nat i') @ CHR ''_'' # str_nat j'"
    by (simp add: mk_offer_id_def)
  from split_last_sep [OF this str_nat_no_underscore str_nat_no_underscore]
  have 1: "s @ ''_'' @ str_nat i = s' @ ''_'' @ str_nat i'" and 2: "str_nat j = str_nat j'"
    by simp_all
  from 1 have "s @ CHR ''_'' # str_nat i = s' @ CHR ''_'' # str_nat i'" by simp
  from split_last_sep [OF this str_nat_no_underscore str_nat_no_underscore]
  have "s = s'" "str_nat i = str_nat i'" by simp_all
  with 2 show ?thesis by (auto dest: str_nat_inj)
qed

subsection \<open>The catalog built by \<open>load_cart\<close> is well formed\<close>

lemma update_fresh: "k \<notin> fst ` set al \<Longrightarrow> AList.update k v al = al @ [(k, v)]"
  by (induction al) auto

lemma dd_append_keys:
  "map fst (dd_append d k v) = (if k \<in> set (map fst d) then map fst d else map fst d @ [k])"
  by (auto simp: dd_append_def AList.update_keys map_of_eq_None_iff split: option.splits
      dest: map_of_SomeD intro: rev_image_eqI)

lemma dd_get_dd_append:
  "dd_get (dd_append d k v) s = (if s = k then dd_get d k @ [v] else dd_get d s)"
  by (auto simp: dd_get_def dd_append_def AList.update_conv' map_add_def split: option.splits)

lemma ids_below_fresh: "ids_below c i j \<Longrightarrow> mk_offer_id s i j \<notin> set (offer_ids c)"
  unfolding ids_below_def by (fastforce dest: mk_offer_id_inj)

lemma ids_below_Suc: "ids_below c i j \<Longrightarrow> ids_below c i (Suc j)"
  unfolding ids_below_def by (fastforce simp: less_Suc_eq)

lemma ids_below_next_item: "ids_below c i j \<Longrightarrow> ids_below c (Suc i) 0"
  unfolding ids_below_def by (fastforce simp: less_Suc_eq)

lemma ids_below_add_offer: "ids_below c i j \<Longrightarrow> ids_below (add_offer i j ofr c) i (Suc j)"
  unfolding ids_below_def add_offer_def Let_def by (fastforce simp: less_Suc_eq)

lemma cart_wf_add_offer:
  assumes wf: "cart_wf c" and fresh: "mk_offer_id (name ofr) i j \<notin> set (offer_ids c)"
    and pos: "0 < offer_available ofr" and item: "mk_item_id i \<in> set (item_ids_of c)"
  shows "cart_wf (add_offer i j ofr c)"
proof -
  let ?oid = "mk_offer_id (name ofr) i j"
  let ?c = "add_offer i j ofr c"
  from wf have keys: "map fst (offer_catalog c) = offer_ids c"
    "map fst (offer_to_seller c) = offer_ids c" by (simp_all add: cart_wf_def)
  from keys have k1: "fst ` set (offer_catalog c) = set (offer_ids c)"
    and k2: "fst ` set (offer_to_seller c) = set (offer_ids c)"
    by (simp_all flip: set_map)
  from k1 k2 fresh have f1: "?oid \<notin> fst ` set (offer_catalog c)"
    and f2: "?oid \<notin> fst ` set (offer_to_seller c)" by simp_all
  have cat: "offer_catalog ?c = offer_catalog c @ [(?oid, \<lparr>item_id = mk_item_id i, cost = offer_cost ofr,
                available = offer_available ofr, seller = name ofr\<rparr>)]"
    using f1 by (simp add: add_offer_def Let_def update_fresh)
  have o2s: "offer_to_seller ?c = offer_to_seller c @ [(?oid, name ofr)]"
    using f2 by (simp add: add_offer_def Let_def update_fresh)
  have ids: "offer_ids ?c = offer_ids c @ [?oid]" by (simp add: add_offer_def Let_def)
  have s2o: "seller_to_offers ?c = dd_append (seller_to_offers c) (name ofr) ?oid"
    by (simp add: add_offer_def Let_def)
  have items: "item_ids_of ?c = item_ids_of c" "item_id_to_url ?c = item_id_to_url c"
    by (simp_all add: add_offer_def Let_def item_ids_of_def)
  have old: "map_of (offer_to_seller ?c) oid = map_of (offer_to_seller c) oid"
    if "oid \<in> set (offer_ids c)" for oid
  proof -
    from that k2 have "oid \<in> dom (map_of (offer_to_seller c))"
      by (simp add: dom_map_of_conv_image_fst)
    then show ?thesis unfolding o2s map_of_append by (rule map_add_dom_app_simps)
  qed
  have new: "map_of (offer_to_seller ?c) ?oid = Some (name ofr)"
  proof -
    from f2 have "?oid \<notin> dom (map_of (offer_to_seller c))"
      by (simp add: dom_map_of_conv_image_fst)
    then have "map_of (offer_to_seller ?c) ?oid = map_of [(?oid, name ofr)] ?oid"
      unfolding o2s map_of_append by (rule map_add_dom_app_simps)
    then show ?thesis by simp
  qed
  have 1: "distinct (offer_ids ?c)" using wf fresh by (simp add: ids cart_wf_def)
  have 2: "distinct (sellers_of ?c)" using wf
    by (simp add: sellers_of_def s2o dd_append_keys cart_wf_def)
  have 3: "distinct (item_ids_of ?c)" using wf by (simp add: items cart_wf_def)
  have 4: "map fst (offer_catalog ?c) = offer_ids ?c" using keys by (simp add: cat ids)
  have 5: "map fst (offer_to_seller ?c) = offer_ids ?c" using keys by (simp add: o2s ids)
  have 6: "map fst (item_id_to_url ?c) = item_ids_of ?c" using wf by (simp add: items cart_wf_def)
  have 7: "\<forall>(oid, r) \<in> set (offer_catalog ?c).
         0 < available r \<and> item_id r \<in> set (item_ids_of ?c) \<and>
         map_of (offer_to_seller ?c) oid = Some (seller r)"
  proof (clarify)
    fix oid r assume "(oid, r) \<in> set (offer_catalog ?c)"
    then consider "(oid, r) \<in> set (offer_catalog c)"
      | "oid = ?oid" "r = \<lparr>item_id = mk_item_id i, cost = offer_cost ofr,
                available = offer_available ofr, seller = name ofr\<rparr>"
      by (auto simp: cat)
    then show "0 < available r \<and> item_id r \<in> set (item_ids_of ?c) \<and>
         map_of (offer_to_seller ?c) oid = Some (seller r)"
    proof cases
      case 1
      then have "oid \<in> set (offer_ids c)" using k1 by force
      with 1 wf old show ?thesis by (auto simp: cart_wf_def items)
    next
      case 2
      with pos item new show ?thesis by (simp add: items)
    qed
  qed
  have 8: "dd_get (seller_to_offers ?c) s =
            filter (\<lambda>oid. map_of (offer_to_seller ?c) oid = Some s) (offer_ids ?c)" for s
  proof -
    have "filter (\<lambda>oid. map_of (offer_to_seller ?c) oid = Some s) (offer_ids c)
        = filter (\<lambda>oid. map_of (offer_to_seller c) oid = Some s) (offer_ids c)"
      by (rule filter_cong) (simp_all add: old)
    also have "\<dots> = dd_get (seller_to_offers c) s" using wf by (simp add: cart_wf_def)
    finally show ?thesis using new by (auto simp: s2o ids dd_get_dd_append)
  qed
  from 1 2 3 4 5 6 7 8 show ?thesis unfolding cart_wf_def by blast
qed

lemma load_offers_wf:
  "cart_wf c \<Longrightarrow> ids_below c i j \<Longrightarrow> mk_item_id i \<in> set (item_ids_of c) \<Longrightarrow>
   cart_wf (load_offers i j offs c) \<and> ids_below (load_offers i j offs c) (Suc i) 0 \<and>
   item_ids_of (load_offers i j offs c) = item_ids_of c"
proof (induction offs arbitrary: j c)
  case Nil
  then show ?case by (auto intro: ids_below_next_item)
next
  case (Cons ofr rest)
  show ?case
  proof (cases "offer_available ofr \<le> 0")
    case True
    with Cons.IH [of c "Suc j"] Cons.prems show ?thesis by (simp add: ids_below_Suc)
  next
    case False
    let ?c = "add_offer i j ofr c"
    have "cart_wf ?c" using Cons.prems False
      by (intro cart_wf_add_offer ids_below_fresh) auto
    moreover have "ids_below ?c i (Suc j)" using Cons.prems by (simp add: ids_below_add_offer)
    moreover have "item_ids_of ?c = item_ids_of c" by (simp add: add_offer_def Let_def item_ids_of_def)
    ultimately show ?thesis using Cons.IH [of ?c "Suc j"] Cons.prems False by simp
  qed
qed

lemma cart_wf_new_item:
  assumes "cart_wf c"
  shows "cart_wf (c\<lparr>items_needed := AList.update iid n (items_needed c),
             item_id_to_url := AList.update iid u (item_id_to_url c)\<rparr>)"
  using assms unfolding cart_wf_def
  by (auto simp: item_ids_of_def sellers_of_def AList.update_keys)

lemma load_items_wf:
  "cart_wf c \<Longrightarrow> ids_below c i 0 \<Longrightarrow> cart_wf (load_items i d c)"
proof (induction d arbitrary: i c)
  case Nil
  then show ?case by simp
next
  case (Cons item rest)
  let ?c = "c\<lparr>items_needed := AList.update (mk_item_id i) (amount item) (items_needed c),
             item_id_to_url := AList.update (mk_item_id i) (url item) (item_id_to_url c)\<rparr>"
  have "cart_wf ?c" using Cons.prems by (simp add: cart_wf_new_item)
  moreover have "ids_below ?c i 0" using Cons.prems by (simp add: ids_below_def)
  moreover have "mk_item_id i \<in> set (item_ids_of ?c)"
    by (simp add: item_ids_of_def AList.update_keys)
  ultimately have "cart_wf (load_offers i 0 (sellers item) ?c)"
    "ids_below (load_offers i 0 (sellers item) ?c) (Suc i) 0"
    using load_offers_wf [of ?c i 0 "sellers item"] by simp_all
  then show ?case using Cons.IH by simp
qed

lemma load_cart_wf: "cart_wf (load_cart d)"
  unfolding load_cart_def
  by (rule load_items_wf) (simp_all add: cart_wf_def ids_below_def empty_cart_def
      sellers_of_def item_ids_of_def dd_get_def)

subsection \<open>Evaluating the examples\<close>

lemma str_nat_digit: "n < 10 \<Longrightarrow> str_nat n = [digit_char n]"
  by (simp add: str_nat.simps)

lemma str_nat_0 [simp]: "str_nat 0 = ''0''" and str_nat_1 [simp]: "str_nat (Suc 0) = ''1''"
  by (simp_all add: str_nat_digit digit_char_def)

lemma load_cart_doc_one: "load_cart doc_one = cart_one"
  by (simp add: load_cart_def doc_one_def cart_one_def empty_cart_def add_offer_def
      mk_offer_id_def mk_item_id_def dd_append_def Let_def)

lemma load_offers_length:
  "length (offer_ids (load_offers i j offs c)) =
     length (offer_ids c) + length (filter (\<lambda>ofr. 0 < offer_available ofr) offs)"
  by (induction offs arbitrary: j c) (auto simp: add_offer_def Let_def)

lemma load_items_length:
  "length (offer_ids (load_items i d c)) =
     length (offer_ids c) + (\<Sum>item\<leftarrow>d. length (filter (\<lambda>ofr. 0 < offer_available ofr) (sellers item)))"
  by (induction d arbitrary: i c) (auto simp: load_offers_length)

lemma cart_wf_catalog_length: "cart_wf c \<Longrightarrow> length (offer_catalog c) = length (offer_ids c)"
  unfolding cart_wf_def by (metis length_map)

lemma cart_wf_entry:
  "cart_wf c \<Longrightarrow> (oid, r) \<in> set (offer_catalog c) \<Longrightarrow>
     0 < available r \<and> item_id r \<in> set (item_ids_of c) \<and> map_of (offer_to_seller c) oid = Some (seller r)"
  unfolding cart_wf_def by blast

section \<open>The catalog\<close>

text \<open>
  Claim C9. Whatever the document, every offer recorded in the catalog built by
  \<open>load_cart\<close> has a positive available quantity and names an item of the same catalog,
  and the catalog holds exactly as many offers as the document has offers with a positive
  available quantity: an offer with zero or negative stock is never recorded.
\<close>

theorem load_cart_catalog_invariant:
  "(\<forall>(oid, r) \<in> set (offer_catalog (load_cart d)).
       0 < available r \<and> item_id r \<in> fst ` set (items_needed (load_cart d)))
   \<and> length (offer_catalog (load_cart d)) =
       (\<Sum>item\<leftarrow>d. length (filter (\<lambda>ofr. 0 < offer_available ofr) (sellers item)))"
proof -
  have "length (offer_ids (load_cart d)) =
       (\<Sum>item\<leftarrow>d. length (filter (\<lambda>ofr. 0 < offer_available ofr) (sellers item)))"
    by (simp add: load_cart_def load_items_length empty_cart_def)
  then show ?thesis
    using load_cart_wf [of d] cart_wf_entry [of "load_cart d"]
    by (auto simp: cart_wf_catalog_length item_ids_of_def)
qed

theorem load_cart_catalog_invariant_witness:
  "(''A_0_1'', \<lparr>item_id = ''item_0'', cost = 10, available = 10, seller = ''A''\<rparr>)
      \<in> set (offer_catalog (load_cart doc_one))
   \<and> ''item_0'' \<in> fst ` set (items_needed (load_cart doc_one))
   \<and> length (offer_catalog (load_cart doc_one)) = 1"
  using load_cart_catalog_invariant [of doc_one] unfolding load_cart_doc_one
  by (simp add: cart_one_def doc_one_def)

section \<open>The problem built from a well-formed catalog\<close>

lemma cart_wf_catalog_keys: "cart_wf c \<Longrightarrow> fst ` set (offer_catalog c) = set (offer_ids c)"
  unfolding cart_wf_def by (metis set_map)

lemma cart_wf_distinct_catalog: "cart_wf c \<Longrightarrow> distinct (map fst (offer_catalog c))"
  unfolding cart_wf_def by simp

lemma cart_wf_lookup:
  assumes "cart_wf c" "oid \<in> set (offer_ids c)"
  shows "map_of (offer_catalog c) oid = Some (catalog_entry c oid)"
    and "(oid, catalog_entry c oid) \<in> set (offer_catalog c)"
proof -
  from assms have "oid \<in> dom (map_of (offer_catalog c))"
    by (simp add: dom_map_of_conv_image_fst cart_wf_catalog_keys)
  then show 1: "map_of (offer_catalog c) oid = Some (catalog_entry c oid)"
    by (auto simp: catalog_entry_def)
  then show "(oid, catalog_entry c oid) \<in> set (offer_catalog c)" by (rule map_of_SomeD)
qed

lemma cart_wf_entry_lookup:
  assumes "cart_wf c" "(oid, r) \<in> set (offer_catalog c)"
  shows "oid \<in> set (offer_ids c)" "catalog_entry c oid = r"
proof -
  from assms show "oid \<in> set (offer_ids c)"
    using cart_wf_catalog_keys [of c] by force
  from assms have "map_of (offer_catalog c) oid = Some r"
    by (simp add: cart_wf_distinct_catalog)
  then show "catalog_entry c oid = r" by (simp add: catalog_entry_def)
qed

lemma getitem_catalog:
  "cart_wf c \<Longrightarrow> oid \<in> set (offer_ids c) \<Longrightarrow> getitem (offer_catalog c) oid = Inr (catalog_entry c oid)"
  by (simp add: getitem_Some cart_wf_lookup)

lemma cart_wf_seller:
  assumes "cart_wf c" "oid \<in> set (offer_ids c)"
  shows "map_of (offer_to_seller c) oid = Some (seller (catalog_entry c oid))"
  using cart_wf_entry [OF assms(1) cart_wf_lookup(2) [OF assms]] by simp

lemma cart_wf_seller_offers:
  "cart_wf c \<Longrightarrow> dd_get (seller_to_offers c) s =
     filter (\<lambda>oid. seller (catalog_entry c oid) = s) (offer_ids c)"
proof -
  assume wf: "cart_wf c"
  then have "dd_get (seller_to_offers c) s =
      filter (\<lambda>oid. map_of (offer_to_seller c) oid = Some s) (offer_ids c)"
    by (simp add: cart_wf_def)
  also have "\<dots> = filter (\<lambda>oid. seller (catalog_entry c oid) = s) (offer_ids c)"
    by (rule filter_cong) (simp_all add: cart_wf_seller [OF wf])
  finally show ?thesis .
qed

lemma cart_wf_seller_known:
  assumes wf: "cart_wf c" and oid: "oid \<in> set (offer_ids c)"
  shows "seller (catalog_entry c oid) \<in> set (sellers_of c)"
proof -
  let ?s = "seller (catalog_entry c oid)"
  from oid have "oid \<in> set (dd_get (seller_to_offers c) ?s)"
    by (simp add: cart_wf_seller_offers [OF wf])
  then have "map_of (seller_to_offers c) ?s \<noteq> None"
    by (cases "map_of (seller_to_offers c) ?s") (auto simp: dd_get_def)
  then show ?thesis unfolding sellers_of_def
    by (simp add: map_of_eq_None_iff)
qed

lemma offers_of_item_wf:
  "cart_wf c \<Longrightarrow> offers_of_item c iid =
     Inr (filter (\<lambda>oid. item_id (catalog_entry c oid) = iid) (offer_ids c))"
  unfolding offers_of_item_def
  by (rule filterM_err_Inr) (simp add: getitem_catalog)

lemma demand_constraint_wf:
  assumes "cart_wf c" "(iid, n) \<in> set (items_needed c)"
  shows "demand_constraint c iid =
     Inr (Constraint (LpSum (map (\<lambda>oid. V (Buy oid))
            (filter (\<lambda>oid. item_id (catalog_entry c oid) = iid) (offer_ids c)))) EQ (Const n))"
proof -
  from assms have "distinct (map fst (items_needed c))" by (simp add: cart_wf_def item_ids_of_def)
  with assms(2) have "map_of (items_needed c) iid = Some n" by simp
  then show ?thesis
    by (simp add: demand_constraint_def offers_of_item_wf [OF assms(1)] getitem_Some)
qed

lemma stock_constraint_wf:
  "cart_wf c \<Longrightarrow> oid \<in> set (offer_ids c) \<Longrightarrow>
     stock_constraint c oid = Inr (Constraint (V (Buy oid)) LE (Const (available (catalog_entry c oid))))"
  by (simp add: stock_constraint_def getitem_catalog)

lemma link_constraints_wf:
  assumes wf: "cart_wf c"
  shows "link_constraints c s =
     Inr (Constraint (V (Qty_seller s)) EQ (LpSum (map (\<lambda>oid. V (Buy oid)) (dd_get (seller_to_offers c) s)))
          # map (\<lambda>oid. Constraint (V (Buy oid)) LE
                          (Mul (Const (available (catalog_entry c oid))) (V (Use_seller s))))
              (dd_get (seller_to_offers c) s))"
proof -
  have sub: "oid \<in> set (offer_ids c)" if "oid \<in> set (dd_get (seller_to_offers c) s)" for oid
    using that by (simp add: cart_wf_seller_offers [OF wf])
  have 1: "mapM_err (buy_var c) (dd_get (seller_to_offers c) s)
      = Inr (map Buy (dd_get (seller_to_offers c) s))"
    by (rule mapM_err_Inr) (simp add: buy_var_def sub)
  have 2: "mapM_err (\<lambda>oid. bind_err (buy_var c oid) (\<lambda>x.
                              bind_err (getitem (offer_catalog c) oid) (\<lambda>r.
                                Inr (Constraint (V x) LE (Mul (Const (available r)) (V (Use_seller s)))))))
                 (dd_get (seller_to_offers c) s)
      = Inr (map (\<lambda>oid. Constraint (V (Buy oid)) LE
                          (Mul (Const (available (catalog_entry c oid))) (V (Use_seller s))))
              (dd_get (seller_to_offers c) s))"
    by (rule mapM_err_Inr) (simp add: buy_var_def sub getitem_catalog [OF wf])
  show ?thesis unfolding link_constraints_def 1 2 by (simp add: comp_def)
qed

lemma objective_expr_wf:
  assumes wf: "cart_wf c"
  shows "objective_expr c =
     Inr (Add (LpSum (map (\<lambda>oid. Mul (V (Buy oid)) (Const (cost (catalog_entry c oid)))) (offer_ids c)))
              (LpSum (map delivery_term (sellers_of c))))"
proof -
  have "mapM_err (\<lambda>oid. bind_err (getitem (offer_catalog c) oid)
                               (\<lambda>r. Inr (Mul (V (Buy oid)) (Const (cost r))))) (offer_ids c)
     = Inr (map (\<lambda>oid. Mul (V (Buy oid)) (Const (cost (catalog_entry c oid)))) (offer_ids c))"
    by (rule mapM_err_Inr) (simp add: getitem_catalog [OF wf])
  then show ?thesis by (simp add: objective_expr_def)
qed

lemma build_problem_wf:
  assumes wf: "cart_wf c"
  shows "build_problem c = Inr
     \<lparr>variables = declare_vars c,
      objective = Add (LpSum (map (\<lambda>oid. Mul (V (Buy oid)) (Const (cost (catalog_entry c oid)))) (offer_ids c)))
              (LpSum (map delivery_term (sellers_of c))),
      constraints =
        map (\<lambda>(iid, n). Constraint (LpSum (map (\<lambda>oid. V (Buy oid))
              (filter (\<lambda>oid. item_id (catalog_entry c oid) = iid) (offer_ids c)))) EQ (Const n))
            (items_needed c)
        @ map (\<lambda>oid. Constraint (V (Buy oid)) LE (Const (available (catalog_entry c oid)))) (offer_ids c)
        @ concat (map (\<lambda>s.
            Constraint (V (Qty_seller s)) EQ (LpSum (map (\<lambda>oid. V (Buy oid)) (dd_get (seller_to_offers c) s)))
            # map (\<lambda>oid. Constraint (V (Buy oid)) LE
                          (Mul (Const (available (catalog_entry c oid))) (V (Use_seller s))))
              (dd_get (seller_to_offers c) s)) (sellers_of c))
        @ concat (map tier_constraints (sellers_of c))\<rparr>"
proof -
  have d: "mapM_err (demand_constraint c) (item_ids_of c)
      = Inr (map (\<lambda>(iid, n). Constraint (LpSum (map (\<lambda>oid. V (Buy oid))
              (filter (\<lambda>oid. item_id (catalog_entry c oid) = iid) (offer_ids c)))) EQ (Const n))
            (items_needed c))"
  proof -
    have "mapM_err (demand_constraint c \<circ> fst) (items_needed c)
      = Inr (map (\<lambda>(iid, n). Constraint (LpSum (map (\<lambda>oid. V (Buy oid))
              (filter (\<lambda>oid. item_id (catalog_entry c oid) = iid) (offer_ids c)))) EQ (Const n))
            (items_needed c))"
      by (rule mapM_err_Inr) (auto simp: demand_constraint_wf [OF wf])
    moreover have "mapM_err (g \<circ> h) xs = mapM_err g (map h xs)" for g :: "string \<Rightarrow> error + constraint"
      and h :: "string \<times> int \<Rightarrow> string" and xs
      by (induction xs) simp_all
    ultimately show ?thesis by (simp add: item_ids_of_def)
  qed
  have s: "mapM_err (stock_constraint c) (offer_ids c)
      = Inr (map (\<lambda>oid. Constraint (V (Buy oid)) LE (Const (available (catalog_entry c oid)))) (offer_ids c))"
    by (rule mapM_err_Inr) (simp add: stock_constraint_wf [OF wf])
  have l: "mapM_err (link_constraints c) (sellers_of c)
      = Inr (map (\<lambda>s.
            Constraint (V (Qty_seller s)) EQ (LpSum (map (\<lambda>oid. V (Buy oid)) (dd_get (seller_to_offers c) s)))
            # map (\<lambda>oid. Constraint (V (Buy oid)) LE
                          (Mul (Const (available (catalog_entry c oid))) (V (Use_seller s))))
              (dd_get (seller_to_offers c) s)) (sellers_of c))"
    by (rule mapM_err_Inr) (simp add: link_constraints_wf [OF wf])
  show ?thesis unfolding build_problem_def objective_expr_wf [OF wf] d s l by simp
qed

section \<open>Decoding on a well-formed catalog\<close>

lemma set_update_subset: "set (AList.update k v al) \<subseteq> insert (k, v) (set al)"
  by (induction al) auto

lemma dd_append_entry:
  assumes "(s, os) \<in> set (dd_append d k v)"
  shows "(s, os) \<in> set d \<or> (s = k \<and> os \<noteq> [] \<and> v \<in> set os)"
proof (cases "map_of d k")
  case None
  with assms show ?thesis by (auto simp: dd_append_def)
next
  case (Some vs)
  with assms have "(s, os) \<in> insert (k, vs @ [v]) (set d)"
    using set_update_subset [of k "vs @ [v]" d] by (auto simp: dd_append_def)
  then show ?thesis by auto
qed

lemma sum_orders_update:
  "map_of al k = Some vs \<Longrightarrow>
   sum_list (map h (concat (map snd (AList.update k (vs @ [v]) al))))
     = sum_list (map h (concat (map snd al))) + (h v :: int)"
  by (induction al) auto

lemma sum_all_orders_dd_append:
  "sum_list (map h (all_orders (dd_append d k v))) = sum_list (map h (all_orders d)) + (h v :: int)"
  by (cases "map_of d k") (simp_all add: all_orders_def dd_append_def sum_orders_update)

lemma distinct_dd_append: "distinct (map fst d) \<Longrightarrow> distinct (map fst (dd_append d k v))"
  by (simp add: dd_append_keys)

text \<open>The loop of lines 106 to 110 on a well-formed catalog never raises.\<close>

lemma extract_assignment_wf:
  assumes wf: "cart_wf c"
  shows "set oids \<subseteq> set (offer_ids c) \<Longrightarrow>
    extract_assignment c val oids asg =
      Inr (fold (\<lambda>oid a. if bought val oid
                          then dd_append a (seller (catalog_entry c oid)) (order_of c val oid) else a)
             oids asg)"
proof (induction oids arbitrary: asg)
  case Nil
  then show ?case by simp
next
  case (Cons oid oids)
  then have oid: "oid \<in> set (offer_ids c)" and rest: "set oids \<subseteq> set (offer_ids c)" by auto
  have s: "getitem (offer_to_seller c) oid = Inr (seller (catalog_entry c oid))"
    by (simp add: getitem_Some cart_wf_seller [OF wf oid])
  show ?case
    by (cases "val (Buy oid)")
       (simp_all add: Cons.IH [OF rest] bought_def s getitem_catalog [OF wf oid] order_of_def or0_def)
qed

lemma fold_orders_get:
  "dd_get (fold (\<lambda>oid a. if P oid then dd_append a (f oid) (g oid) else a) oids asg) s
     = dd_get asg s @ map g (filter (\<lambda>oid. P oid \<and> f oid = s) oids)"
  by (induction oids arbitrary: asg) (auto simp: dd_get_dd_append)

lemma fold_orders_distinct:
  "distinct (map fst asg) \<Longrightarrow>
   distinct (map fst (fold (\<lambda>oid a. if P oid then dd_append a (f oid) (g oid) else a) oids asg))"
  by (induction oids arbitrary: asg) (auto simp: distinct_dd_append)

lemma fold_orders_nonempty:
  "\<forall>(s, os) \<in> set asg. os \<noteq> [] \<Longrightarrow>
   \<forall>(s, os) \<in> set (fold (\<lambda>oid a. if P oid then dd_append a (f oid) (g oid) else a) oids asg). os \<noteq> []"
proof (induction oids arbitrary: asg)
  case Nil
  then show ?case by simp
next
  case (Cons oid oids)
  have "\<forall>(s, os) \<in> set (dd_append asg (f oid) (g oid)). os \<noteq> []"
    using Cons.prems by (auto dest: dd_append_entry)
  with Cons show ?case by simp
qed

lemma fold_orders_sum:
  "sum_list (map h (all_orders (fold (\<lambda>oid a. if P oid then dd_append a (f oid) (g oid) else a) oids asg)))
     = sum_list (map h (all_orders asg)) + (\<Sum>oid\<leftarrow>filter P oids. (h (g oid) :: int))"
  by (induction oids arbitrary: asg) (auto simp: sum_all_orders_dd_append)

lemma dd_get_entry: "distinct (map fst d) \<Longrightarrow> (s, os) \<in> set d \<Longrightarrow> dd_get d s = os"
  by (simp add: dd_get_def)

lemma delivery_costs_lookup:
  "map_of (fold (\<lambda>s d. AList.update s (f s) d) ss d0) k
     = (if k \<in> set ss then Some (f k) else map_of d0 k)"
  by (induction ss arbitrary: d0 rule: rev_induct) (auto simp: AList.update_conv')

lemma get_or0_delivery_costs:
  "get_or0 (extract_delivery_costs val ss) s = (if s \<in> set ss then delivery_cost_of val s else 0)"
  by (simp add: get_or0_def extract_delivery_costs_def delivery_costs_lookup)

lemma orders_cost_wf:
  assumes wf: "cart_wf c" and sub: "\<forall>(it, oid, qty) \<in> set ords. oid \<in> set (offer_ids c)"
  shows "orders_cost c ords = Inr (\<Sum>(it, oid, qty)\<leftarrow>ords. cost (catalog_entry c oid) * qty)"
proof -
  have "mapM_err (\<lambda>(_, oid, qty). bind_err (getitem (offer_catalog c) oid)
                                            (\<lambda>r. Inr (cost r * qty))) ords
      = Inr (map (\<lambda>(it, oid, qty). cost (catalog_entry c oid) * qty) ords)"
    by (rule mapM_err_Inr) (use sub in \<open>auto simp: getitem_catalog [OF wf]\<close>)
  then show ?thesis by (simp add: orders_cost_def)
qed

lemma compute_total_cost_wf:
  assumes wf: "cart_wf c"
    and sub: "\<forall>(sel, ords) \<in> set asg. \<forall>(it, oid, qty) \<in> set ords. oid \<in> set (offer_ids c)"
  shows "compute_total_cost c asg dc = Inr (recomputed_total c asg dc)"
proof -
  have "mapM_err (\<lambda>(sel, ords). bind_err (orders_cost c ords)
                                          (\<lambda>t. Inr (t + get_or0 dc sel))) asg
     = Inr (map (\<lambda>(sel, ords). (\<Sum>(it, oid, qty)\<leftarrow>ords. cost (catalog_entry c oid) * qty) + get_or0 dc sel) asg)"
  proof (rule mapM_err_Inr)
    fix x assume x: "x \<in> set asg"
    obtain sel ords where [simp]: "x = (sel, ords)" by (cases x)
    from x sub have "\<forall>(it, oid, qty) \<in> set ords. oid \<in> set (offer_ids c)" by auto
    from orders_cost_wf [OF wf this]
    show "(case x of (sel, ords) \<Rightarrow> bind_err (orders_cost c ords) (\<lambda>t. Inr (t + get_or0 dc sel)))
        = Inr (case x of (sel, ords) \<Rightarrow>
            (\<Sum>(it, oid, qty)\<leftarrow>ords. cost (catalog_entry c oid) * qty) + get_or0 dc sel)"
      by simp
  qed
  then show ?thesis by (simp add: compute_total_cost_def recomputed_total_def)
qed

lemma decoded_entry:
  assumes "(s, os) \<in> set (decoded_assignment c val)"
  shows "os = map (order_of c val)
               (filter (\<lambda>oid. bought val oid \<and> seller (catalog_entry c oid) = s) (offer_ids c))"
    and "os \<noteq> []"
proof -
  have d: "distinct (map fst (decoded_assignment c val))"
    unfolding decoded_assignment_def by (rule fold_orders_distinct) simp
  have e: "dd_get ([] :: (string \<times> orders) list) s = []" by (simp add: dd_get_def)
  from dd_get_entry [OF d assms] show "os = map (order_of c val)
               (filter (\<lambda>oid. bought val oid \<and> seller (catalog_entry c oid) = s) (offer_ids c))"
    unfolding decoded_assignment_def fold_orders_get e by simp
  have "\<forall>(s, os) \<in> set (decoded_assignment c val). os \<noteq> []"
    unfolding decoded_assignment_def by (rule fold_orders_nonempty) simp
  with assms show "os \<noteq> []" by auto
qed

lemma decoded_sum:
  "sum_list (map h (all_orders (decoded_assignment c val)))
     = (\<Sum>oid\<leftarrow>filter (bought val) (offer_ids c). (h (order_of c val oid) :: int))"
  unfolding decoded_assignment_def fold_orders_sum by (simp add: all_orders_def)

lemma extract_result_wf:
  assumes wf: "cart_wf c"
  shows "extract_result c val =
     Inr \<lparr>assignment = decoded_assignment c val,
          delivery_costs = extract_delivery_costs val (sellers_of c),
          total_cost = recomputed_total c (decoded_assignment c val)
                         (extract_delivery_costs val (sellers_of c))\<rparr>"
proof -
  have a: "extract_assignment c val (offer_ids c) [] = Inr (decoded_assignment c val)"
    by (simp add: extract_assignment_wf [OF wf] decoded_assignment_def)
  have "\<forall>(sel, ords) \<in> set (decoded_assignment c val). \<forall>(it, oid, qty) \<in> set ords. oid \<in> set (offer_ids c)"
    by (auto dest!: decoded_entry(1) simp: order_of_def)
  from compute_total_cost_wf [OF wf this]
  show ?thesis by (simp add: extract_result_def a Let_def)
qed

section \<open>Stock limits\<close>

lemma solve_shopping_problem_wf:
  assumes "cart_wf c" "build_problem c = Inr p"
  shows "solve_shopping_problem slv c =
    (if status (slv p) \<noteq> Optimal then Inr ([Print_solving, Call_solver p, Print_no_optimal], None)
     else Inr ([Print_solving, Call_solver p],
            Some \<lparr>assignment = decoded_assignment c (varValue (slv p)),
                  delivery_costs = extract_delivery_costs (varValue (slv p)) (sellers_of c),
                  total_cost = recomputed_total c (decoded_assignment c (varValue (slv p)))
                         (extract_delivery_costs (varValue (slv p)) (sellers_of c))\<rparr>))"
  by (simp add: solve_shopping_problem_def assms(2) Let_def extract_result_wf [OF assms(1)])

lemma build_problem_total: "cart_wf c \<Longrightarrow> \<exists>p. build_problem c = Inr p"
  by (simp add: build_problem_wf)


lemma feasible_holds: "feasible p a \<Longrightarrow> k \<in> set (constraints p) \<Longrightarrow> holds a k"
  by (simp add: feasible_def list_all_iff)

lemma feasible_bounds: "feasible p a \<Longrightarrow> d \<in> set (variables p) \<Longrightarrow> in_bounds a d"
  by (simp add: feasible_def list_all_iff)





lemmas build_defs = build_problem_def objective_expr_def demand_constraint_def offers_of_item_def
  stock_constraint_def link_constraints_def tier_constraints_def declare_vars_def sellers_of_def
  item_ids_of_def getitem_def dd_get_def buy_var_def delivery_term_def

lemmas const_defs = SMALL_DEL_def MED_DEL_def BIG_DEL_def BIG_M_def

lemma build_cart_one: "build_problem cart_one = Inr prob_one"
  unfolding prob_one_def by (simp add: build_defs cart_one_def)

lemma feasible_one: "feasible prob_one a_one"
  unfolding prob_one_def
  by (simp add: build_defs cart_one_def feasible_def in_bounds_def a_one_def const_defs)



section \<open>Demand\<close>

lemma build_problem_variables:
  "cart_wf c \<Longrightarrow> build_problem c = Inr p \<Longrightarrow> variables p = declare_vars c"
  by (auto simp: build_problem_wf)

lemma py_int_of_int [simp]: "py_int (of_int n) = n"
  by (simp add: py_int_def)

lemma exact_buy:
  assumes wf: "cart_wf c" and p: "build_problem c = Inr p"
    and ex: "exact_solution p sol a" and oid: "oid \<in> set (offer_ids c)"
  shows "varValue sol (Buy oid) = Some (of_int (a (Buy oid)))" and "0 \<le> a (Buy oid)"
    and "bought (varValue sol) oid \<longleftrightarrow> 0 < a (Buy oid)"
    and "py_int (or0 (varValue sol (Buy oid))) = a (Buy oid)"
proof -
  let ?d = "\<lparr>decl_var = Buy oid, lowBound = Some 0, upBound = None, cat = LpInteger\<rparr>"
  from oid have m: "?d \<in> set (variables p)"
    unfolding build_problem_variables [OF wf p] declare_vars_def by force
  with ex show v: "varValue sol (Buy oid) = Some (of_int (a (Buy oid)))"
    by (auto simp: exact_solution_def list_all_iff)
  from ex have "feasible p a" by (simp add: exact_solution_def)
  from feasible_bounds [OF this m] show "0 \<le> a (Buy oid)" by (simp add: in_bounds_def)
  from v show "bought (varValue sol) oid \<longleftrightarrow> 0 < a (Buy oid)" by (auto simp: bought_def)
  from v show "py_int (or0 (varValue sol (Buy oid))) = a (Buy oid)" by (simp add: or0_def)
qed

lemma sum_filter_zero:
  "(\<And>x. x \<in> set xs \<Longrightarrow> \<not> P x \<Longrightarrow> f x = (0::int)) \<Longrightarrow>
   sum_list (map f (filter P xs)) = sum_list (map f xs)"
  by (induction xs) auto

lemma plan_item_qty_exact:
  assumes wf: "cart_wf c" and p: "build_problem c = Inr p" and ex: "exact_solution p sol a"
  shows "plan_item_qty (decoded_assignment c (varValue sol)) iid =
     (\<Sum>oid\<leftarrow>filter (\<lambda>oid. item_id (catalog_entry c oid) = iid) (offer_ids c). a (Buy oid))"
proof -
  let ?val = "varValue sol"
  let ?f = "\<lambda>oid. if item_id (catalog_entry c oid) = iid then a (Buy oid) else 0"
  have "plan_item_qty (decoded_assignment c ?val) iid
      = (\<Sum>oid\<leftarrow>filter (bought ?val) (offer_ids c).
           if item_id (catalog_entry c oid) = iid then py_int (or0 (?val (Buy oid))) else 0)"
    unfolding plan_item_qty_def decoded_sum by (simp add: order_of_def)
  also have "\<dots> = sum_list (map ?f (filter (bought ?val) (offer_ids c)))"
    by (rule arg_cong [where f = sum_list], rule map_cong) (auto simp: exact_buy(4) [OF wf p ex])
  also have "\<dots> = sum_list (map ?f (offer_ids c))"
  proof (rule sum_filter_zero)
    fix x assume "x \<in> set (offer_ids c)" "\<not> bought ?val x"
    with exact_buy(2,3) [OF wf p ex, of x] show "?f x = 0" by auto
  qed
  also have "\<dots> = (\<Sum>oid\<leftarrow>filter (\<lambda>oid. item_id (catalog_entry c oid) = iid) (offer_ids c). a (Buy oid))"
    by (simp add: sum_list_map_filter')
  finally show ?thesis .
qed

lemma demand_constraint_mem:
  assumes wf: "cart_wf c" and p: "build_problem c = Inr p" and e: "(iid, n) \<in> set (items_needed c)"
  shows "Constraint (LpSum (map (\<lambda>oid. V (Buy oid))
            (filter (\<lambda>oid. item_id (catalog_entry c oid) = iid) (offer_ids c)))) EQ (Const n)
         \<in> set (constraints p)"
proof -
  from e have "Constraint (LpSum (map (\<lambda>oid. V (Buy oid))
            (filter (\<lambda>oid. item_id (catalog_entry c oid) = iid) (offer_ids c)))) EQ (Const n)
     \<in> set (map (\<lambda>(iid, n). Constraint (LpSum (map (\<lambda>oid. V (Buy oid))
              (filter (\<lambda>oid. item_id (catalog_entry c oid) = iid) (offer_ids c)))) EQ (Const n))
            (items_needed c))"
    by force
  with p show ?thesis unfolding build_problem_wf [OF wf] by auto
qed

lemma eval_sum_buy: "eval a (LpSum (map (\<lambda>oid. V (Buy oid)) xs)) = (\<Sum>oid\<leftarrow>xs. a (Buy oid))"
  by (simp add: comp_def)

lemma offers_of_item_set:
  assumes wf: "cart_wf c"
  shows "set (filter (\<lambda>oid. item_id (catalog_entry c oid) = iid) (offer_ids c))
     = {oid. \<exists>r. (oid, r) \<in> set (offer_catalog c) \<and> item_id r = iid}"
  using cart_wf_lookup(2) [OF wf] cart_wf_entry_lookup [OF wf] by auto

text \<open>
  The demand constraints. For every item of the catalog the built problem contains the
  equality of the sum of \<open>buy[o]\<close>, over the offers of that item, with the item's
  required quantity, so every feasible assignment buys exactly that quantity. When the
  solver's answer is exactly a feasible assignment, a plan is returned and its quantities,
  summed per item, are the required quantities of the catalog.
\<close>

lemma demand_met_exactly:
  "\<exists>p. build_problem (load_cart d) = Inr p \<and>
     (\<forall>(iid, n) \<in> set (items_needed (load_cart d)).
        \<exists>offers. offers_of_item (load_cart d) iid = Inr offers \<and>
          distinct offers \<and>
          set offers = {oid. \<exists>r. (oid, r) \<in> set (offer_catalog (load_cart d)) \<and> item_id r = iid} \<and>
          Constraint (LpSum (map (\<lambda>oid. V (Buy oid)) offers)) EQ (Const n) \<in> set (constraints p) \<and>
          (\<forall>a. feasible p a \<longrightarrow> (\<Sum>oid\<leftarrow>offers. a (Buy oid)) = n)) \<and>
     (\<forall>slv a. exact_solution p (slv p) a \<longrightarrow>
        (\<exists>evs res. solve_shopping_problem slv (load_cart d) = Inr (evs, Some res) \<and>
           (\<forall>(iid, n) \<in> set (items_needed (load_cart d)). plan_item_qty (assignment res) iid = n)))"
proof -
  let ?c = "load_cart d"
  let ?offs = "\<lambda>iid. filter (\<lambda>oid. item_id (catalog_entry ?c oid) = iid) (offer_ids ?c)"
  have wf: "cart_wf ?c" by (rule load_cart_wf)
  from build_problem_total [OF wf] obtain p where p: "build_problem ?c = Inr p" ..
  have sum: "(\<Sum>oid\<leftarrow>?offs iid. a (Buy oid)) = n"
    if "(iid, n) \<in> set (items_needed ?c)" "feasible p a" for iid n a
    using feasible_holds [OF that(2) demand_constraint_mem [OF wf p that(1)]]
    by (simp add: eval_sum_buy del: eval.simps(6))
  have 1: "\<exists>offers. offers_of_item ?c iid = Inr offers \<and> distinct offers \<and>
          set offers = {oid. \<exists>r. (oid, r) \<in> set (offer_catalog ?c) \<and> item_id r = iid} \<and>
          Constraint (LpSum (map (\<lambda>oid. V (Buy oid)) offers)) EQ (Const n) \<in> set (constraints p) \<and>
          (\<forall>a. feasible p a \<longrightarrow> (\<Sum>oid\<leftarrow>offers. a (Buy oid)) = n)"
    if e: "(iid, n) \<in> set (items_needed ?c)" for iid n
  proof (intro exI conjI)
    show "offers_of_item ?c iid = Inr (?offs iid)" by (rule offers_of_item_wf [OF wf])
    show "distinct (?offs iid)" using wf by (simp add: cart_wf_def)
    show "set (?offs iid) = {oid. \<exists>r. (oid, r) \<in> set (offer_catalog ?c) \<and> item_id r = iid}"
      by (rule offers_of_item_set [OF wf])
    show "Constraint (LpSum (map (\<lambda>oid. V (Buy oid)) (?offs iid))) EQ (Const n) \<in> set (constraints p)"
      by (rule demand_constraint_mem [OF wf p e])
    show "\<forall>a. feasible p a \<longrightarrow> (\<Sum>oid\<leftarrow>?offs iid. a (Buy oid)) = n"
      using sum [OF e] by blast
  qed
  have 2: "\<exists>evs res. solve_shopping_problem slv ?c = Inr (evs, Some res) \<and>
           (\<forall>(iid, n) \<in> set (items_needed ?c). plan_item_qty (assignment res) iid = n)"
    if ex: "exact_solution p (slv p) a" for slv a
  proof -
    let ?val = "varValue (slv p)"
    let ?res = "\<lparr>assignment = decoded_assignment ?c ?val,
                  delivery_costs = extract_delivery_costs ?val (sellers_of ?c),
                  total_cost = recomputed_total ?c (decoded_assignment ?c ?val)
                         (extract_delivery_costs ?val (sellers_of ?c))\<rparr>"
    from ex have s: "solve_shopping_problem slv ?c = Inr ([Print_solving, Call_solver p], Some ?res)"
      by (simp add: solve_shopping_problem_wf [OF wf p] exact_solution_def)
    from ex have f: "feasible p a" by (simp add: exact_solution_def)
    have "plan_item_qty (assignment ?res) iid = n" if "(iid, n) \<in> set (items_needed ?c)" for iid n
      using sum [OF that f] by (simp add: plan_item_qty_exact [OF wf p ex])
    with s show ?thesis by blast
  qed
  from p 1 2 show ?thesis by blast
qed

lemma exact_one: "exact_solution prob_one (slv_one prob_one) a_one"
  unfolding exact_solution_def
proof (intro conjI)
  show "status (slv_one prob_one) = Optimal" by (simp add: slv_one_def sol_one_def)
  show "feasible prob_one a_one" by (rule feasible_one)
  show "list_all (\<lambda>d. varValue (slv_one prob_one) (decl_var d) = Some (of_int (a_one (decl_var d))))
     (variables prob_one)"
    by (simp add: slv_one_def sol_one_def list_all_iff)
qed

lemma demand_met_exactly_witness:
  "(''item_0'', 3) \<in> set (items_needed (load_cart doc_one))
   \<and> offers_of_item (load_cart doc_one) ''item_0'' = Inr [''A_0_1'']
   \<and> Constraint (LpSum (map (\<lambda>oid. V (Buy oid)) [''A_0_1''])) EQ (Const 3) \<in> set (constraints prob_one)
   \<and> feasible prob_one a_one \<and> (\<Sum>oid\<leftarrow>[''A_0_1'']. a_one (Buy oid)) = 3
   \<and> exact_solution prob_one (slv_one prob_one) a_one
   \<and> (\<exists>evs res. solve_shopping_problem slv_one (load_cart doc_one) = Inr (evs, Some res) \<and>
         plan_item_qty (assignment res) ''item_0'' = 3)"
proof -
  have m: "(''item_0'', 3) \<in> set (items_needed (load_cart doc_one))"
    by (simp add: load_cart_doc_one cart_one_def)
  have o: "offers_of_item (load_cart doc_one) ''item_0'' = Inr [''A_0_1'']"
    by (simp add: load_cart_doc_one cart_one_def offers_of_item_def getitem_def)
  from demand_met_exactly [of doc_one] obtain p where
    p: "build_problem (load_cart doc_one) = Inr p"
    and 1: "\<forall>(iid, n) \<in> set (items_needed (load_cart doc_one)).
        \<exists>offers. offers_of_item (load_cart doc_one) iid = Inr offers \<and>
          distinct offers \<and>
          set offers = {oid. \<exists>r. (oid, r) \<in> set (offer_catalog (load_cart doc_one)) \<and> item_id r = iid} \<and>
          Constraint (LpSum (map (\<lambda>oid. V (Buy oid)) offers)) EQ (Const n) \<in> set (constraints p) \<and>
          (\<forall>a. feasible p a \<longrightarrow> (\<Sum>oid\<leftarrow>offers. a (Buy oid)) = n)"
    and 2: "\<forall>slv a. exact_solution p (slv p) a \<longrightarrow>
        (\<exists>evs res. solve_shopping_problem slv (load_cart doc_one) = Inr (evs, Some res) \<and>
           (\<forall>(iid, n) \<in> set (items_needed (load_cart doc_one)). plan_item_qty (assignment res) iid = n))"
    by blast
  from p have [simp]: "p = prob_one" by (simp add: load_cart_doc_one build_cart_one)
  from 1 m o have "Constraint (LpSum (map (\<lambda>oid. V (Buy oid)) [''A_0_1''])) EQ (Const 3) \<in> set (constraints prob_one)"
    by fastforce
  moreover from 2 exact_one m have "\<exists>evs res. solve_shopping_problem slv_one (load_cart doc_one) = Inr (evs, Some res) \<and>
         plan_item_qty (assignment res) ''item_0'' = 3" by fastforce
  moreover have "(\<Sum>oid\<leftarrow>[''A_0_1'']. a_one (Buy oid)) = 3" by (simp add: a_one_def)
  ultimately show ?thesis using m o exact_one feasible_one by blast
qed

section \<open>Shipping tiers\<close>

lemma py_round_of_int [simp]: "py_round (of_int n) = n"
  by (simp add: py_round_def)

lemma concat_map_mem: "x \<in> set xs \<Longrightarrow> set (g x) \<subseteq> set (concat (map g xs))"
  by auto

lemma third_subset: "set C \<subseteq> set (A @ B @ C @ D)"
  by auto

lemma build_problem_link_constraints:
  assumes wf: "cart_wf c" and p: "build_problem c = Inr p" and s: "s \<in> set (sellers_of c)"
  shows "set (Constraint (V (Qty_seller s)) EQ (LpSum (map (\<lambda>oid. V (Buy oid)) (dd_get (seller_to_offers c) s)))
            # map (\<lambda>oid. Constraint (V (Buy oid)) LE
                          (Mul (Const (available (catalog_entry c oid))) (V (Use_seller s))))
              (dd_get (seller_to_offers c) s)) \<subseteq> set (constraints p)"
proof -
  let ?g = "\<lambda>s. Constraint (V (Qty_seller s)) EQ (LpSum (map (\<lambda>oid. V (Buy oid)) (dd_get (seller_to_offers c) s)))
            # map (\<lambda>oid. Constraint (V (Buy oid)) LE
                          (Mul (Const (available (catalog_entry c oid))) (V (Use_seller s))))
              (dd_get (seller_to_offers c) s)"
  have 1: "set (?g s) \<subseteq> set (concat (map ?g (sellers_of c)))"
    using s by (rule concat_map_mem)
  from p have cs: "constraints p =
        map (\<lambda>(iid, n). Constraint (LpSum (map (\<lambda>oid. V (Buy oid))
              (filter (\<lambda>oid. item_id (catalog_entry c oid) = iid) (offer_ids c)))) EQ (Const n))
            (items_needed c)
        @ map (\<lambda>oid. Constraint (V (Buy oid)) LE (Const (available (catalog_entry c oid)))) (offer_ids c)
        @ concat (map ?g (sellers_of c))
        @ concat (map tier_constraints (sellers_of c))"
    unfolding build_problem_wf [OF wf] by auto
  have "set (concat (map ?g (sellers_of c))) \<subseteq> set (constraints p)"
    unfolding cs by (rule third_subset)
  with 1 show ?thesis by (rule subset_trans)
qed

lemma tier_constraints_hold:
  assumes wf: "cart_wf c" and p: "build_problem c = Inr p" and f: "feasible p a"
    and s: "s \<in> set (sellers_of c)"
  shows "a (Small_del s) + a (Med_del s) + a (Big_del s) = a (Use_seller s)"
    and "a (Qty_seller s) \<le> 4 + (1 - a (Small_del s)) * BIG_M"
    and "5 * a (Med_del s) \<le> a (Qty_seller s)"
    and "a (Qty_seller s) \<le> 20 + (1 - a (Med_del s)) * BIG_M"
    and "21 * a (Big_del s) \<le> a (Qty_seller s)"
proof -
  have "set (tier_constraints s) \<subseteq> set (constraints p)"
    using p s unfolding build_problem_wf [OF wf] by auto
  then have "\<forall>k \<in> set (tier_constraints s). holds a k"
    using feasible_holds [OF f] by blast
  then show "a (Small_del s) + a (Med_del s) + a (Big_del s) = a (Use_seller s)"
    and "a (Qty_seller s) \<le> 4 + (1 - a (Small_del s)) * BIG_M"
    and "5 * a (Med_del s) \<le> a (Qty_seller s)"
    and "a (Qty_seller s) \<le> 20 + (1 - a (Med_del s)) * BIG_M"
    and "21 * a (Big_del s) \<le> a (Qty_seller s)"
    by (simp_all add: tier_constraints_def)
qed

lemma tier_sum_constraint_mem:
  assumes wf: "cart_wf c" and p: "build_problem c = Inr p" and s: "s \<in> set (sellers_of c)"
  shows "Constraint (Add (Add (V (Small_del s)) (V (Med_del s))) (V (Big_del s))) EQ (V (Use_seller s))
     \<in> set (constraints p)"
proof -
  have "set (tier_constraints s) \<subseteq> set (constraints p)"
    using p s unfolding build_problem_wf [OF wf] by auto
  then show ?thesis by (simp add: tier_constraints_def)
qed

lemma link_constraints_hold:
  assumes wf: "cart_wf c" and p: "build_problem c = Inr p" and f: "feasible p a"
    and s: "s \<in> set (sellers_of c)"
  shows "a (Qty_seller s) = (\<Sum>oid\<leftarrow>dd_get (seller_to_offers c) s. a (Buy oid))"
    and "oid \<in> set (dd_get (seller_to_offers c) s) \<Longrightarrow>
           a (Buy oid) \<le> available (catalog_entry c oid) * a (Use_seller s)"
proof -
  let ?ks = "Constraint (V (Qty_seller s)) EQ (LpSum (map (\<lambda>oid. V (Buy oid)) (dd_get (seller_to_offers c) s)))
            # map (\<lambda>oid. Constraint (V (Buy oid)) LE
                          (Mul (Const (available (catalog_entry c oid))) (V (Use_seller s))))
              (dd_get (seller_to_offers c) s)"
  have "set ?ks \<subseteq> set (constraints p)"
    by (rule build_problem_link_constraints [OF wf p s])
  then have h: "\<forall>k \<in> set ?ks. holds a k"
    using feasible_holds [OF f] by blast
  then have "holds a (Constraint (V (Qty_seller s)) EQ
      (LpSum (map (\<lambda>oid. V (Buy oid)) (dd_get (seller_to_offers c) s))))" by simp
  then show "a (Qty_seller s) = (\<Sum>oid\<leftarrow>dd_get (seller_to_offers c) s. a (Buy oid))"
    by (simp add: eval_sum_buy del: eval.simps(6))
  assume "oid \<in> set (dd_get (seller_to_offers c) s)"
  with h have "holds a (Constraint (V (Buy oid)) LE
                          (Mul (Const (available (catalog_entry c oid))) (V (Use_seller s))))"
    by simp
  then show "a (Buy oid) \<le> available (catalog_entry c oid) * a (Use_seller s)" by simp
qed

lemma binary_bounds:
  assumes wf: "cart_wf c" and p: "build_problem c = Inr p" and f: "feasible p a"
    and s: "s \<in> set (sellers_of c)"
  shows "0 \<le> a (Use_seller s) \<and> a (Use_seller s) \<le> 1"
    and "0 \<le> a (Small_del s) \<and> a (Small_del s) \<le> 1"
    and "0 \<le> a (Med_del s) \<and> a (Med_del s) \<le> 1"
    and "0 \<le> a (Big_del s) \<and> a (Big_del s) \<le> 1"
proof -
  have v: "\<lparr>decl_var = x, lowBound = Some 0, upBound = Some 1, cat = LpBinary\<rparr> \<in> set (variables p)"
    if "x \<in> {Use_seller s, Small_del s, Med_del s, Big_del s}" for x
    using that s unfolding build_problem_variables [OF wf p] declare_vars_def by auto
  show "0 \<le> a (Use_seller s) \<and> a (Use_seller s) \<le> 1"
    using feasible_bounds [OF f v [of "Use_seller s"]] by (simp add: in_bounds_def)
  show "0 \<le> a (Small_del s) \<and> a (Small_del s) \<le> 1"
    using feasible_bounds [OF f v [of "Small_del s"]] by (simp add: in_bounds_def)
  show "0 \<le> a (Med_del s) \<and> a (Med_del s) \<le> 1"
    using feasible_bounds [OF f v [of "Med_del s"]] by (simp add: in_bounds_def)
  show "0 \<le> a (Big_del s) \<and> a (Big_del s) \<le> 1"
    using feasible_bounds [OF f v [of "Big_del s"]] by (simp add: in_bounds_def)
qed

lemma exact_tier_values:
  assumes wf: "cart_wf c" and p: "build_problem c = Inr p"
    and ex: "exact_solution p sol a" and s: "s \<in> set (sellers_of c)"
  shows "varValue sol (Small_del s) = Some (of_int (a (Small_del s)))"
    and "varValue sol (Med_del s) = Some (of_int (a (Med_del s)))"
    and "varValue sol (Big_del s) = Some (of_int (a (Big_del s)))"
proof -
  have v: "\<lparr>decl_var = x, lowBound = Some 0, upBound = Some 1, cat = LpBinary\<rparr> \<in> set (variables p)"
    if "x \<in> {Small_del s, Med_del s, Big_del s}" for x
    using that s unfolding build_problem_variables [OF wf p] declare_vars_def by auto
  from ex have "\<forall>d \<in> set (variables p). varValue sol (decl_var d) = Some (of_int (a (decl_var d)))"
    by (simp add: exact_solution_def list_all_iff)
  then show "varValue sol (Small_del s) = Some (of_int (a (Small_del s)))"
    and "varValue sol (Med_del s) = Some (of_int (a (Med_del s)))"
    and "varValue sol (Big_del s) = Some (of_int (a (Big_del s)))"
    using v [of "Small_del s"] v [of "Med_del s"] v [of "Big_del s"] by force+
qed

lemma delivery_cost_exact:
  assumes wf: "cart_wf c" and p: "build_problem c = Inr p"
    and ex: "exact_solution p sol a" and s: "s \<in> set (sellers_of c)"
  shows "map_of (extract_delivery_costs (varValue sol) (sellers_of c)) s =
     Some (if a (Small_del s) = 1 then SMALL_DEL else if a (Med_del s) = 1 then MED_DEL
           else if a (Big_del s) = 1 then BIG_DEL else 0)"
  using s by (simp add: extract_delivery_costs_def delivery_costs_lookup delivery_cost_of_def
      exact_tier_values [OF wf p ex s] or0_def)

lemma elem_le_sum_list:
  "x \<in> set xs \<Longrightarrow> (\<And>y. y \<in> set xs \<Longrightarrow> 0 \<le> f y) \<Longrightarrow> f x \<le> (\<Sum>y\<leftarrow>xs. (f y :: int))"
proof (induction xs)
  case Nil
  then show ?case by simp
next
  case (Cons z zs)
  have nn: "0 \<le> (\<Sum>y\<leftarrow>zs. f y)" using Cons.prems(2) by (intro sum_list_nonneg) auto
  show ?case
  proof (cases "x = z")
    case True
    with nn show ?thesis by simp
  next
    case False
    with Cons have "f x \<le> (\<Sum>y\<leftarrow>zs. f y)" by auto
    moreover have "0 \<le> f z" using Cons.prems(2) by simp
    ultimately show ?thesis by simp
  qed
qed

lemma orders_qty_exact:
  assumes wf: "cart_wf c" and p: "build_problem c = Inr p" and ex: "exact_solution p sol a"
    and e: "(s, ords) \<in> set (decoded_assignment c (varValue sol))"
  shows "s \<in> set (sellers_of c)" and "orders_qty ords = a (Qty_seller s)"
    and "1 \<le> a (Qty_seller s)" and "a (Use_seller s) = 1"
proof -
  let ?val = "varValue sol"
  let ?mine = "filter (\<lambda>oid. seller (catalog_entry c oid) = s) (offer_ids c)"
  from ex have f: "feasible p a" by (simp add: exact_solution_def)
  from decoded_entry [OF e]
  have ords: "ords = map (order_of c ?val)
               (filter (\<lambda>oid. bought ?val oid \<and> seller (catalog_entry c oid) = s) (offer_ids c))"
    and ne: "ords \<noteq> []" by simp_all
  from ords ne have "filter (\<lambda>oid. bought ?val oid \<and> seller (catalog_entry c oid) = s) (offer_ids c) \<noteq> []"
    by auto
  then obtain oid where oid: "oid \<in> set (offer_ids c)" "bought ?val oid"
    "seller (catalog_entry c oid) = s"
    by (auto simp: filter_empty_conv)
  from cart_wf_seller_known [OF wf oid(1)] oid(3) show s: "s \<in> set (sellers_of c)" by simp
  have get: "dd_get (seller_to_offers c) s = ?mine" by (rule cart_wf_seller_offers [OF wf])
  have "orders_qty ords = (\<Sum>x\<leftarrow>filter (\<lambda>oid. bought ?val oid \<and> seller (catalog_entry c oid) = s) (offer_ids c).
        py_int (or0 (?val (Buy x))))"
    by (simp add: ords orders_qty_def order_of_def comp_def)
  also have "\<dots> = (\<Sum>x\<leftarrow>filter (bought ?val) ?mine. py_int (or0 (?val (Buy x))))"
    by (simp add: conj_commute)
  also have "\<dots> = (\<Sum>x\<leftarrow>filter (bought ?val) ?mine. a (Buy x))"
    by (rule arg_cong [where f = sum_list], rule map_cong) (auto simp: exact_buy(4) [OF wf p ex])
  also have "\<dots> = (\<Sum>x\<leftarrow>?mine. a (Buy x))"
  proof (rule sum_filter_zero)
    fix x assume "x \<in> set ?mine" "\<not> bought ?val x"
    with exact_buy(2,3) [OF wf p ex, of x] show "a (Buy x) = 0" by auto
  qed
  also have "\<dots> = a (Qty_seller s)"
    using link_constraints_hold(1) [OF wf p f s] by (simp add: get)
  finally show q: "orders_qty ords = a (Qty_seller s)" .
  from oid have pos: "0 < a (Buy oid)" using exact_buy(3) [OF wf p ex oid(1)] by simp
  from oid have mine: "oid \<in> set ?mine" by simp
  have "a (Buy oid) \<le> (\<Sum>x\<leftarrow>?mine. a (Buy x))"
    using mine by (rule elem_le_sum_list) (use exact_buy(2) [OF wf p ex] in auto)
  with pos link_constraints_hold(1) [OF wf p f s] show "1 \<le> a (Qty_seller s)" by (simp add: get)
  from mine have "a (Buy oid) \<le> available (catalog_entry c oid) * a (Use_seller s)"
    using link_constraints_hold(2) [OF wf p f s] by (simp add: get)
  with pos have "a (Use_seller s) \<noteq> 0" by auto
  with binary_bounds(1) [OF wf p f s] show "a (Use_seller s) = 1" by simp
qed

text \<open>
  The tier constraints. For every seller the built problem contains
  \<open>small_del[s] + med_del[s] + big_del[s] = use_seller[s]\<close>, and in every feasible
  assignment a small tier means at most 4 units, a medium tier 5 to 20 units and a large
  tier at least 21 units from that seller. When the solver's answer is exactly a feasible
  assignment, every seller of the returned plan is a seller of the catalog, the quantities
  of its list add up to \<open>qty_seller[s]\<close>, exactly one of its three tier indicators is 1,
  the fee recorded for it is the fee of that tier, and the total lies within the tier's
  bounds (1 to 4, 5 to 20, 21 and more).
\<close>

lemma tier_selection:
  "\<exists>p. build_problem (load_cart d) = Inr p \<and>
     (\<forall>s \<in> set (sellers_of (load_cart d)).
        Constraint (Add (Add (V (Small_del s)) (V (Med_del s))) (V (Big_del s))) EQ (V (Use_seller s))
          \<in> set (constraints p) \<and>
        (\<forall>a. feasible p a \<longrightarrow>
           a (Small_del s) + a (Med_del s) + a (Big_del s) = a (Use_seller s) \<and>
           (a (Small_del s) = 1 \<longrightarrow> a (Qty_seller s) \<le> 4) \<and>
           (a (Med_del s) = 1 \<longrightarrow> 5 \<le> a (Qty_seller s) \<and> a (Qty_seller s) \<le> 20) \<and>
           (a (Big_del s) = 1 \<longrightarrow> 21 \<le> a (Qty_seller s)))) \<and>
     (\<forall>slv a. exact_solution p (slv p) a \<longrightarrow>
        (\<exists>evs res. solve_shopping_problem slv (load_cart d) = Inr (evs, Some res) \<and>
           (\<forall>(s, ords) \<in> set (assignment res).
              s \<in> set (sellers_of (load_cart d)) \<and>
              orders_qty ords = a (Qty_seller s) \<and>
              a (Small_del s) + a (Med_del s) + a (Big_del s) = 1 \<and>
              ((a (Small_del s) = 1 \<and> map_of (delivery_costs res) s = Some SMALL_DEL \<and>
                  1 \<le> orders_qty ords \<and> orders_qty ords \<le> 4) \<or>
               (a (Med_del s) = 1 \<and> map_of (delivery_costs res) s = Some MED_DEL \<and>
                  5 \<le> orders_qty ords \<and> orders_qty ords \<le> 20) \<or>
               (a (Big_del s) = 1 \<and> map_of (delivery_costs res) s = Some BIG_DEL \<and>
                  21 \<le> orders_qty ords)))))"
proof -
  let ?c = "load_cart d"
  have wf: "cart_wf ?c" by (rule load_cart_wf)
  from build_problem_total [OF wf] obtain p where p: "build_problem ?c = Inr p" ..
  have tiers: "a (Small_del s) + a (Med_del s) + a (Big_del s) = a (Use_seller s) \<and>
           (a (Small_del s) = 1 \<longrightarrow> a (Qty_seller s) \<le> 4) \<and>
           (a (Med_del s) = 1 \<longrightarrow> 5 \<le> a (Qty_seller s) \<and> a (Qty_seller s) \<le> 20) \<and>
           (a (Big_del s) = 1 \<longrightarrow> 21 \<le> a (Qty_seller s))"
    if s: "s \<in> set (sellers_of ?c)" and f: "feasible p a" for s a
    using tier_constraints_hold [OF wf p f s] by auto
  have 1: "Constraint (Add (Add (V (Small_del s)) (V (Med_del s))) (V (Big_del s))) EQ (V (Use_seller s))
          \<in> set (constraints p) \<and>
        (\<forall>a. feasible p a \<longrightarrow>
           a (Small_del s) + a (Med_del s) + a (Big_del s) = a (Use_seller s) \<and>
           (a (Small_del s) = 1 \<longrightarrow> a (Qty_seller s) \<le> 4) \<and>
           (a (Med_del s) = 1 \<longrightarrow> 5 \<le> a (Qty_seller s) \<and> a (Qty_seller s) \<le> 20) \<and>
           (a (Big_del s) = 1 \<longrightarrow> 21 \<le> a (Qty_seller s)))"
    if s: "s \<in> set (sellers_of ?c)" for s
    using tier_sum_constraint_mem [OF wf p s] tiers [OF s] by blast
  have 2: "\<exists>evs res. solve_shopping_problem slv ?c = Inr (evs, Some res) \<and>
           (\<forall>(s, ords) \<in> set (assignment res).
              s \<in> set (sellers_of ?c) \<and>
              orders_qty ords = a (Qty_seller s) \<and>
              a (Small_del s) + a (Med_del s) + a (Big_del s) = 1 \<and>
              ((a (Small_del s) = 1 \<and> map_of (delivery_costs res) s = Some SMALL_DEL \<and>
                  1 \<le> orders_qty ords \<and> orders_qty ords \<le> 4) \<or>
               (a (Med_del s) = 1 \<and> map_of (delivery_costs res) s = Some MED_DEL \<and>
                  5 \<le> orders_qty ords \<and> orders_qty ords \<le> 20) \<or>
               (a (Big_del s) = 1 \<and> map_of (delivery_costs res) s = Some BIG_DEL \<and>
                  21 \<le> orders_qty ords)))"
    if ex: "exact_solution p (slv p) a" for slv a
  proof -
    let ?val = "varValue (slv p)"
    let ?res = "\<lparr>assignment = decoded_assignment ?c ?val,
                  delivery_costs = extract_delivery_costs ?val (sellers_of ?c),
                  total_cost = recomputed_total ?c (decoded_assignment ?c ?val)
                         (extract_delivery_costs ?val (sellers_of ?c))\<rparr>"
    from ex have sv: "solve_shopping_problem slv ?c = Inr ([Print_solving, Call_solver p], Some ?res)"
      by (simp add: solve_shopping_problem_wf [OF wf p] exact_solution_def)
    from ex have f: "feasible p a" by (simp add: exact_solution_def)
    have "s \<in> set (sellers_of ?c) \<and>
              orders_qty ords = a (Qty_seller s) \<and>
              a (Small_del s) + a (Med_del s) + a (Big_del s) = 1 \<and>
              ((a (Small_del s) = 1 \<and> map_of (delivery_costs ?res) s = Some SMALL_DEL \<and>
                  1 \<le> orders_qty ords \<and> orders_qty ords \<le> 4) \<or>
               (a (Med_del s) = 1 \<and> map_of (delivery_costs ?res) s = Some MED_DEL \<and>
                  5 \<le> orders_qty ords \<and> orders_qty ords \<le> 20) \<or>
               (a (Big_del s) = 1 \<and> map_of (delivery_costs ?res) s = Some BIG_DEL \<and>
                  21 \<le> orders_qty ords))"
      if e: "(s, ords) \<in> set (assignment ?res)" for s ords
    proof -
      from e have e': "(s, ords) \<in> set (decoded_assignment ?c ?val)" by simp
      note o = orders_qty_exact [OF wf p ex e']
      note t = tiers [OF o(1) f]
      note b = binary_bounds [OF wf p f o(1)]
      note dc = delivery_cost_exact [OF wf p ex o(1)]
      from t o(4) have sum1: "a (Small_del s) + a (Med_del s) + a (Big_del s) = 1" by simp
      with b consider "a (Small_del s) = 1" "a (Med_del s) = 0" "a (Big_del s) = 0"
        | "a (Small_del s) = 0" "a (Med_del s) = 1" "a (Big_del s) = 0"
        | "a (Small_del s) = 0" "a (Med_del s) = 0" "a (Big_del s) = 1"
        by linarith
      then show ?thesis
      proof cases
        case 1
        with t o sum1 dc show ?thesis by simp
      next
        case 2
        with t o sum1 dc show ?thesis by simp
      next
        case 3
        with t o sum1 dc show ?thesis by simp
      qed
    qed
    with sv show ?thesis by blast
  qed
  from p 1 2 show ?thesis by blast
qed

lemmas extract_defs = extract_result_def compute_total_cost_def orders_cost_def
  extract_delivery_costs_def delivery_cost_of_def getitem_def get_or0_def dd_append_def
  or0_def py_int_def py_round_def sellers_of_def

lemma solve_one:
  "solve_shopping_problem slv_one cart_one =
     Inr ([Print_solving, Call_solver prob_one],
          Some \<lparr>assignment = [(''A'', [(''item_0'', ''A_0_1'', 3)])],
                delivery_costs = [(''A'', 132)], total_cost = 162\<rparr>)"
  unfolding solve_shopping_problem_def build_cart_one
  by (simp add: slv_one_def sol_one_def a_one_def cart_one_def extract_defs const_defs)

lemma tier_selection_witness:
  "''A'' \<in> set (sellers_of (load_cart doc_one))
   \<and> Constraint (Add (Add (V (Small_del ''A'')) (V (Med_del ''A''))) (V (Big_del ''A''))) EQ (V (Use_seller ''A''))
        \<in> set (constraints prob_one)
   \<and> feasible prob_one a_one \<and> a_one (Small_del ''A'') = 1 \<and> a_one (Qty_seller ''A'') \<le> 4
   \<and> exact_solution prob_one (slv_one prob_one) a_one
   \<and> (\<exists>evs res ords. solve_shopping_problem slv_one (load_cart doc_one) = Inr (evs, Some res) \<and>
         (''A'', ords) \<in> set (assignment res) \<and>
         map_of (delivery_costs res) ''A'' = Some SMALL_DEL \<and>
         1 \<le> orders_qty ords \<and> orders_qty ords \<le> 4)"
proof -
  have m: "''A'' \<in> set (sellers_of (load_cart doc_one))"
    by (simp add: load_cart_doc_one cart_one_def sellers_of_def)
  have one: "a_one (Small_del ''A'') = 1" "a_one (Med_del ''A'') = 0" "a_one (Big_del ''A'') = 0"
    by (simp_all add: a_one_def)
  from tier_selection [of doc_one] obtain p where
    p: "build_problem (load_cart doc_one) = Inr p"
    and 1: "\<forall>s \<in> set (sellers_of (load_cart doc_one)).
        Constraint (Add (Add (V (Small_del s)) (V (Med_del s))) (V (Big_del s))) EQ (V (Use_seller s))
          \<in> set (constraints p) \<and>
        (\<forall>a. feasible p a \<longrightarrow>
           a (Small_del s) + a (Med_del s) + a (Big_del s) = a (Use_seller s) \<and>
           (a (Small_del s) = 1 \<longrightarrow> a (Qty_seller s) \<le> 4) \<and>
           (a (Med_del s) = 1 \<longrightarrow> 5 \<le> a (Qty_seller s) \<and> a (Qty_seller s) \<le> 20) \<and>
           (a (Big_del s) = 1 \<longrightarrow> 21 \<le> a (Qty_seller s)))"
    and 2: "\<forall>slv a. exact_solution p (slv p) a \<longrightarrow>
        (\<exists>evs res. solve_shopping_problem slv (load_cart doc_one) = Inr (evs, Some res) \<and>
           (\<forall>(s, ords) \<in> set (assignment res).
              s \<in> set (sellers_of (load_cart doc_one)) \<and>
              orders_qty ords = a (Qty_seller s) \<and>
              a (Small_del s) + a (Med_del s) + a (Big_del s) = 1 \<and>
              ((a (Small_del s) = 1 \<and> map_of (delivery_costs res) s = Some SMALL_DEL \<and>
                  1 \<le> orders_qty ords \<and> orders_qty ords \<le> 4) \<or>
               (a (Med_del s) = 1 \<and> map_of (delivery_costs res) s = Some MED_DEL \<and>
                  5 \<le> orders_qty ords \<and> orders_qty ords \<le> 20) \<or>
               (a (Big_del s) = 1 \<and> map_of (delivery_costs res) s = Some BIG_DEL \<and>
                  21 \<le> orders_qty ords))))"
    by blast
  from p have pe [simp]: "p = prob_one" by (simp add: load_cart_doc_one build_cart_one)
  from 1 m have k: "Constraint (Add (Add (V (Small_del ''A'')) (V (Med_del ''A''))) (V (Big_del ''A''))) EQ (V (Use_seller ''A''))
        \<in> set (constraints prob_one)"
    and q: "a_one (Qty_seller ''A'') \<le> 4" using feasible_one one by fastforce+
  from 2 exact_one obtain evs res where
    sv: "solve_shopping_problem slv_one (load_cart doc_one) = Inr (evs, Some res)"
    and all: "\<forall>(s, ords) \<in> set (assignment res).
              s \<in> set (sellers_of (load_cart doc_one)) \<and>
              orders_qty ords = a_one (Qty_seller s) \<and>
              a_one (Small_del s) + a_one (Med_del s) + a_one (Big_del s) = 1 \<and>
              ((a_one (Small_del s) = 1 \<and> map_of (delivery_costs res) s = Some SMALL_DEL \<and>
                  1 \<le> orders_qty ords \<and> orders_qty ords \<le> 4) \<or>
               (a_one (Med_del s) = 1 \<and> map_of (delivery_costs res) s = Some MED_DEL \<and>
                  5 \<le> orders_qty ords \<and> orders_qty ords \<le> 20) \<or>
               (a_one (Big_del s) = 1 \<and> map_of (delivery_costs res) s = Some BIG_DEL \<and>
                  21 \<le> orders_qty ords))"
    unfolding pe by blast
  have "assignment res = [(''A'', [(''item_0'', ''A_0_1'', 3)])]"
    using sv unfolding load_cart_doc_one solve_one by auto
  then have e: "(''A'', [(''item_0'', ''A_0_1'', 3)]) \<in> set (assignment res)" by simp
  from all e one have "map_of (delivery_costs res) ''A'' = Some SMALL_DEL \<and>
         1 \<le> orders_qty [(''item_0'', ''A_0_1'', 3)] \<and> orders_qty [(''item_0'', ''A_0_1'', 3)] \<le> 4"
    by fastforce
  with sv e have "\<exists>evs res ords. solve_shopping_problem slv_one (load_cart doc_one) = Inr (evs, Some res) \<and>
         (''A'', ords) \<in> set (assignment res) \<and>
         map_of (delivery_costs res) ''A'' = Some SMALL_DEL \<and>
         1 \<le> orders_qty ords \<and> orders_qty ords \<le> 4" by blast
  with m k q one(1) feasible_one exact_one show ?thesis by blast
qed

section \<open>The availability check of \<open>main\<close>\<close>

lemma cart_wf_catalog_list:
  assumes wf: "cart_wf c"
  shows "offer_catalog c = map (\<lambda>oid. (oid, catalog_entry c oid)) (offer_ids c)"
proof -
  have "map (\<lambda>oid. (oid, catalog_entry c oid)) (map fst (offer_catalog c)) = offer_catalog c"
    unfolding map_map by (rule map_idI) (auto simp: cart_wf_entry_lookup(2) [OF wf])
  with wf show ?thesis by (simp add: cart_wf_def)
qed

lemma item_stock_wf:
  assumes wf: "cart_wf c"
  shows "item_stock c iid =
     (\<Sum>oid\<leftarrow>filter (\<lambda>oid. item_id (catalog_entry c oid) = iid) (offer_ids c). available (catalog_entry c oid))"
proof -
  have "item_stock c iid = (\<Sum>(oid, r)\<leftarrow>map (\<lambda>oid. (oid, catalog_entry c oid)) (offer_ids c).
      if item_id r = iid then available r else 0)"
    unfolding item_stock_def using cart_wf_catalog_list [OF wf] by simp
  then show ?thesis by (simp add: comp_def sum_list_map_filter')
qed

lemma total_available_wf:
  assumes wf: "cart_wf c"
  shows "total_available c iid = Inr (item_stock c iid)"
proof -
  let ?offs = "filter (\<lambda>oid. item_id (catalog_entry c oid) = iid) (offer_ids c)"
  have "mapM_err (\<lambda>oid. bind_err (getitem (offer_catalog c) oid) (\<lambda>r. Inr (available r))) ?offs
      = Inr (map (\<lambda>oid. available (catalog_entry c oid)) ?offs)"
    by (rule mapM_err_Inr) (simp add: getitem_catalog [OF wf])
  then show ?thesis
    by (simp add: total_available_def offers_of_item_wf [OF wf] item_stock_wf [OF wf])
qed

lemma cart_wf_item_lookups:
  assumes wf: "cart_wf c" and e: "(iid, n) \<in> set (items_needed c)"
  shows "getitem (items_needed c) iid = Inr n" and "\<exists>u. getitem (item_id_to_url c) iid = Inr u"
proof -
  from wf have "distinct (map fst (items_needed c))" by (simp add: cart_wf_def item_ids_of_def)
  with e show "getitem (items_needed c) iid = Inr n" by (simp add: getitem_Some)
  from wf have k: "map fst (item_id_to_url c) = map fst (items_needed c)"
    by (simp add: cart_wf_def item_ids_of_def)
  from e have "iid \<in> set (map fst (items_needed c))" by force
  with k have "iid \<in> fst ` set (item_id_to_url c)" by (simp flip: set_map)
  then have "map_of (item_id_to_url c) iid \<noteq> None" by (simp add: map_of_eq_None_iff)
  then show "\<exists>u. getitem (item_id_to_url c) iid = Inr u" by (auto simp: getitem_def)
qed

text \<open>
  The loop of lines 170 to 179 over a part of the items, one of which is short of stock:
  it stops at the first such item, after one availability line for each item before it.
\<close>

lemma check_availability_stops:
  assumes wf: "cart_wf c"
  shows "set items \<subseteq> set (items_needed c) \<Longrightarrow> \<exists>(iid, n) \<in> set items. item_stock c iid < n \<Longrightarrow>
    \<exists>pre iid u need.
      check_availability c (map fst items)
        = Inr (pre @ [Print_availability u need (item_stock c iid), Print_not_enough_stock], False) \<and>
      (iid, need) \<in> set items \<and> item_stock c iid < need \<and>
      getitem (item_id_to_url c) iid = Inr u \<and>
      (\<forall>e \<in> set pre. \<exists>u' n' a'. e = Print_availability u' n' a')"
proof (induction items)
  case Nil
  then show ?case by simp
next
  case (Cons x items)
  obtain iid n where x: "x = (iid, n)" by (cases x)
  from Cons.prems x have e: "(iid, n) \<in> set (items_needed c)" by simp
  from cart_wf_item_lookups [OF wf e] obtain u where
    n: "getitem (items_needed c) iid = Inr n" and u: "getitem (item_id_to_url c) iid = Inr u" by blast
  show ?case
  proof (cases "item_stock c iid < n")
    case True
    then have "check_availability c (map fst (x # items))
        = Inr ([] @ [Print_availability u n (item_stock c iid), Print_not_enough_stock], False)"
      by (simp add: x total_available_wf [OF wf] n u)
    with True u x show ?thesis by (intro exI [of _ "[]"] exI [of _ iid] exI [of _ u] exI [of _ n]) simp
  next
    case False
    with Cons.prems x have "\<exists>(iid, n) \<in> set items. item_stock c iid < n" by auto
    moreover from Cons.prems have "set items \<subseteq> set (items_needed c)" by simp
    ultimately obtain pre iid' u' need where
      r: "check_availability c (map fst items)
        = Inr (pre @ [Print_availability u' need (item_stock c iid'), Print_not_enough_stock], False)"
      and rest: "(iid', need) \<in> set items" "item_stock c iid' < need"
        "getitem (item_id_to_url c) iid' = Inr u'"
        "\<forall>e \<in> set pre. \<exists>u' n' a'. e = Print_availability u' n' a'"
      using Cons.IH by blast
    from False r have "check_availability c (map fst (x # items))
        = Inr ((Print_availability u n (item_stock c iid) # pre)
               @ [Print_availability u' need (item_stock c iid'), Print_not_enough_stock], False)"
      by (simp add: x total_available_wf [OF wf] n u)
    with rest show ?thesis
      by (intro exI [of _ "Print_availability u n (item_stock c iid) # pre"]
          exI [of _ iid'] exI [of _ u'] exI [of _ need]) auto
  qed
qed

text \<open>
  Claim C6. When some item of the catalog has less stock over all its offers than it needs,
  \<open>main\<close> ends, whatever the solver, with a trace that holds only the heading, one
  availability line for each item checked, the last of them for an item that is short of
  stock, and the not-enough-stock line: the problem is never built and the solver never
  called.
\<close>

theorem insufficient_stock_stops_before_solver:
  assumes "(iid, n) \<in> set (items_needed (load_cart d))" and "item_stock (load_cart d) iid < n"
  shows "\<exists>pre iid' u need.
      main slv d = Inr (Print_checking # pre @
                        [Print_availability u need (item_stock (load_cart d) iid'), Print_not_enough_stock]) \<and>
      (iid', need) \<in> set (items_needed (load_cart d)) \<and>
      item_stock (load_cart d) iid' < need \<and>
      getitem (item_id_to_url (load_cart d)) iid' = Inr u \<and>
      (\<forall>e \<in> set pre. \<exists>u' n' a'. e = Print_availability u' n' a')"
proof -
  let ?c = "load_cart d"
  have wf: "cart_wf ?c" by (rule load_cart_wf)
  from assms have "\<exists>(iid, n) \<in> set (items_needed ?c). item_stock ?c iid < n" by blast
  from check_availability_stops [OF wf subset_refl this]
  obtain pre iid' u need where
    r: "check_availability ?c (map fst (items_needed ?c))
        = Inr (pre @ [Print_availability u need (item_stock ?c iid'), Print_not_enough_stock], False)"
    and rest: "(iid', need) \<in> set (items_needed ?c)" "item_stock ?c iid' < need"
      "getitem (item_id_to_url ?c) iid' = Inr u"
      "\<forall>e \<in> set pre. \<exists>u' n' a'. e = Print_availability u' n' a'"
    by blast
  from r have "main slv d = Inr (Print_checking # pre @
        [Print_availability u need (item_stock ?c iid'), Print_not_enough_stock])"
    by (simp add: main_def Let_def item_ids_of_def)
  with rest show ?thesis by blast
qed

lemma load_cart_doc_short:
  "load_cart doc_short = \<lparr>items_needed = [(''item_0'', 5)], item_id_to_url = [(''item_0'', ''u0'')],
     offer_catalog = [(''A_0_0'', \<lparr>item_id = ''item_0'', cost = 10, available = 2, seller = ''A''\<rparr>)],
     offer_ids = [''A_0_0''], offer_to_seller = [(''A_0_0'', ''A'')],
     seller_to_offers = [(''A'', [''A_0_0''])]\<rparr>"
  by (simp add: load_cart_def doc_short_def empty_cart_def add_offer_def
      mk_offer_id_def mk_item_id_def dd_append_def Let_def)

theorem insufficient_stock_stops_before_solver_witness:
  "(''item_0'', 5) \<in> set (items_needed (load_cart doc_short))
   \<and> item_stock (load_cart doc_short) ''item_0'' < 5
   \<and> main slv_one doc_short = Inr [Print_checking, Print_availability ''u0'' 5 2, Print_not_enough_stock]"
proof -
  have m: "(''item_0'', 5) \<in> set (items_needed (load_cart doc_short))"
    by (simp add: load_cart_doc_short)
  have s: "item_stock (load_cart doc_short) ''item_0'' < 5"
    by (simp add: load_cart_doc_short item_stock_def)
  from insufficient_stock_stops_before_solver [OF m s, of slv_one]
  obtain pre iid' u need where
    r: "main slv_one doc_short = Inr (Print_checking # pre @
          [Print_availability u need (item_stock (load_cart doc_short) iid'), Print_not_enough_stock])"
    and i: "(iid', need) \<in> set (items_needed (load_cart doc_short))"
    and u: "getitem (item_id_to_url (load_cart doc_short)) iid' = Inr u"
    and pre: "\<forall>e \<in> set pre. \<exists>u' n' a'. e = Print_availability u' n' a'"
    by blast
  from i have [simp]: "iid' = ''item_0''" "need = 5" by (simp_all add: load_cart_doc_short)
  from u have [simp]: "u = ''u0''" by (simp add: load_cart_doc_short getitem_def)
  have "length (items_needed (load_cart doc_short)) = 1" by (simp add: load_cart_doc_short)
  have "main slv_one doc_short = Inr [Print_checking, Print_availability ''u0'' 5 2, Print_not_enough_stock]"
    by (simp add: main_def Let_def load_cart_doc_short item_ids_of_def total_available_def
        offers_of_item_def getitem_def)
  with m s r show ?thesis by simp
qed

section \<open>Solver status and the returned total\<close>

lemma solve_non_optimal:
  assumes "cart_wf c" "build_problem c = Inr p" "status (slv p) \<noteq> Optimal"
  shows "solve_shopping_problem slv c = Inr ([Print_solving, Call_solver p, Print_no_optimal], None)"
  using assms(3) by (simp add: solve_shopping_problem_wf [OF assms(1,2)])

lemma check_availability_passes:
  assumes wf: "cart_wf c"
  shows "set items \<subseteq> set (items_needed c) \<Longrightarrow> \<forall>(iid, n) \<in> set items. n \<le> item_stock c iid \<Longrightarrow>
    \<exists>pre. check_availability c (map fst items) = Inr (pre, True) \<and>
      (\<forall>e \<in> set pre. \<exists>u' n' a'. e = Print_availability u' n' a')"
proof (induction items)
  case Nil
  then show ?case by simp
next
  case (Cons x items)
  obtain iid n where x: "x = (iid, n)" by (cases x)
  from Cons.prems x have e: "(iid, n) \<in> set (items_needed c)" and ok: "n \<le> item_stock c iid"
    by simp_all
  from cart_wf_item_lookups [OF wf e] obtain u where
    n: "getitem (items_needed c) iid = Inr n" and u: "getitem (item_id_to_url c) iid = Inr u" by blast
  from Cons obtain pre where
    r: "check_availability c (map fst items) = Inr (pre, True)"
    and pre: "\<forall>e \<in> set pre. \<exists>u' n' a'. e = Print_availability u' n' a'" by auto
  from ok r have "check_availability c (map fst (x # items))
      = Inr (Print_availability u n (item_stock c iid) # pre, True)"
    by (simp add: x total_available_wf [OF wf] n u)
  with pre show ?case by auto
qed

lemma main_non_optimal:
  assumes p: "build_problem (load_cart d) = Inr p" and st: "status (slv p) \<noteq> Optimal"
    and ok: "\<forall>(iid, n) \<in> set (items_needed (load_cart d)). n \<le> item_stock (load_cart d) iid"
  shows "\<exists>pre. main slv d = Inr (Print_checking # pre @ [Print_solving, Call_solver p, Print_no_optimal]) \<and>
           (\<forall>e \<in> set pre. \<exists>u' n' a'. e = Print_availability u' n' a')"
proof -
  let ?c = "load_cart d"
  have wf: "cart_wf ?c" by (rule load_cart_wf)
  from check_availability_passes [OF wf subset_refl ok] obtain pre where
    r: "check_availability ?c (map fst (items_needed ?c)) = Inr (pre, True)"
    and pre: "\<forall>e \<in> set pre. \<exists>u' n' a'. e = Print_availability u' n' a'" by blast
  have sv: "solve_shopping_problem slv ?c = Inr ([Print_solving, Call_solver p, Print_no_optimal], None)"
    using wf p st by (rule solve_non_optimal)
  from r have "main slv d = Inr (Print_checking # pre @ [Print_solving, Call_solver p, Print_no_optimal])"
    by (simp add: main_def Let_def item_ids_of_def sv)
  with pre show ?thesis by blast
qed

text \<open>
  Claim C8, as amended. Whenever the solver's status is not \<open>Optimal\<close>,
  \<open>solve_shopping_problem\<close> prints that no optimal solution was found and returns
  \<open>None\<close>, with no partial result, and \<open>main\<close>, when every item has enough stock,
  ends on that line and prints no result. The outcome does not depend on which non-optimal
  status it was.
\<close>

theorem non_optimal_returns_none:
  "\<exists>p. build_problem (load_cart d) = Inr p \<and>
     (\<forall>slv. status (slv p) \<noteq> Optimal \<longrightarrow>
        solve_shopping_problem slv (load_cart d)
          = Inr ([Print_solving, Call_solver p, Print_no_optimal], None) \<and>
        ((\<forall>(iid, n) \<in> set (items_needed (load_cart d)). n \<le> item_stock (load_cart d) iid) \<longrightarrow>
           (\<exists>pre. main slv d
                     = Inr (Print_checking # pre @ [Print_solving, Call_solver p, Print_no_optimal]) \<and>
                  (\<forall>e \<in> set pre. \<exists>u' n' a'. e = Print_availability u' n' a'))))"
proof -
  have wf: "cart_wf (load_cart d)" by (rule load_cart_wf)
  from build_problem_total [OF wf] obtain p where p: "build_problem (load_cart d) = Inr p" ..
  with solve_non_optimal [OF wf p] main_non_optimal [OF p] show ?thesis by blast
qed

theorem non_optimal_returns_none_witness:
  "status (slv_infeasible prob_one) \<noteq> Optimal \<and>
   3 \<le> item_stock (load_cart doc_one) ''item_0'' \<and>
   solve_shopping_problem slv_infeasible (load_cart doc_one)
     = Inr ([Print_solving, Call_solver prob_one, Print_no_optimal], None) \<and>
   main slv_infeasible doc_one
     = Inr [Print_checking, Print_availability ''u0'' 3 10,
            Print_solving, Call_solver prob_one, Print_no_optimal]"
proof -
  from non_optimal_returns_none [of doc_one] obtain p where
    p: "build_problem (load_cart doc_one) = Inr p"
    and 1: "\<forall>slv. status (slv p) \<noteq> Optimal \<longrightarrow>
        solve_shopping_problem slv (load_cart doc_one)
          = Inr ([Print_solving, Call_solver p, Print_no_optimal], None) \<and>
        ((\<forall>(iid, n) \<in> set (items_needed (load_cart doc_one)). n \<le> item_stock (load_cart doc_one) iid) \<longrightarrow>
           (\<exists>pre. main slv doc_one
                     = Inr (Print_checking # pre @ [Print_solving, Call_solver p, Print_no_optimal]) \<and>
                  (\<forall>e \<in> set pre. \<exists>u' n' a'. e = Print_availability u' n' a')))"
    by blast
  from p have pe: "p = prob_one" by (simp add: load_cart_doc_one build_cart_one)
  have s: "status (slv_infeasible prob_one) \<noteq> Optimal" by (simp add: slv_infeasible_def)
  have k: "3 \<le> item_stock (load_cart doc_one) ''item_0''"
    by (simp add: load_cart_doc_one cart_one_def item_stock_def)
  have ok: "\<forall>(iid, n) \<in> set (items_needed (load_cart doc_one)). n \<le> item_stock (load_cart doc_one) iid"
    by (simp add: load_cart_doc_one cart_one_def item_stock_def)
  from 1 s ok obtain pre where
    sv: "solve_shopping_problem slv_infeasible (load_cart doc_one)
          = Inr ([Print_solving, Call_solver prob_one, Print_no_optimal], None)"
    and m: "main slv_infeasible doc_one
          = Inr (Print_checking # pre @ [Print_solving, Call_solver prob_one, Print_no_optimal])"
    unfolding pe by blast
  have c: "check_availability cart_one (item_ids_of cart_one)
      = Inr ([Print_availability ''u0'' 3 10], True)"
    by (simp add: cart_one_def item_ids_of_def total_available_def offers_of_item_def getitem_def)
  from sv have "main slv_infeasible doc_one
     = Inr [Print_checking, Print_availability ''u0'' 3 10,
            Print_solving, Call_solver prob_one, Print_no_optimal]"
    unfolding main_def Let_def load_cart_doc_one c by simp
  with s k sv show ?thesis by blast
qed

text \<open>
  The claim as written fails: an infeasible problem and a solver failure give the caller the
  same trace and the same \<open>None\<close>.
\<close>

theorem non_optimal_reason_counterexample:
  "status (slv_infeasible prob_one) = Infeasible \<and> status (slv_failed prob_one) = Undefined \<and>
   solve_shopping_problem slv_infeasible (load_cart doc_one)
     = Inr ([Print_solving, Call_solver prob_one, Print_no_optimal], None) \<and>
   solve_shopping_problem slv_failed (load_cart doc_one)
     = Inr ([Print_solving, Call_solver prob_one, Print_no_optimal], None) \<and>
   main slv_infeasible doc_one = main slv_failed doc_one"
proof -
  have wf: "cart_wf cart_one" using load_cart_wf [of doc_one] by (simp add: load_cart_doc_one)
  have 1: "solve_shopping_problem slv_infeasible cart_one
     = Inr ([Print_solving, Call_solver prob_one, Print_no_optimal], None)"
    by (rule solve_non_optimal [OF wf build_cart_one]) (simp add: slv_infeasible_def)
  have 2: "solve_shopping_problem slv_failed cart_one
     = Inr ([Print_solving, Call_solver prob_one, Print_no_optimal], None)"
    by (rule solve_non_optimal [OF wf build_cart_one]) (simp add: slv_failed_def)
  have "main slv_infeasible doc_one = main slv_failed doc_one"
    unfolding main_def load_cart_doc_one Let_def 1 2 ..
  with 1 2 show ?thesis by (simp add: load_cart_doc_one slv_infeasible_def slv_failed_def)
qed

text \<open>
  Claim C4, as amended. For every solve that ends with status \<open>Optimal\<close>, whatever the
  values, a result is returned and its total is the sum, over the sellers of the plan, of
  cost times quantity of their triples plus the fee recorded for the seller. Nothing is
  compared with the solver's objective and no error is raised.
\<close>

theorem total_cost_recomputed:
  "\<exists>p. build_problem (load_cart d) = Inr p \<and>
     (\<forall>slv. status (slv p) = Optimal \<longrightarrow>
        (\<exists>res. solve_shopping_problem slv (load_cart d)
                  = Inr ([Print_solving, Call_solver p], Some res) \<and>
               total_cost res = recomputed_total (load_cart d) (assignment res) (delivery_costs res)))"
proof -
  have wf: "cart_wf (load_cart d)" by (rule load_cart_wf)
  from build_problem_total [OF wf] obtain p where p: "build_problem (load_cart d) = Inr p" ..
  then show ?thesis by (auto simp: solve_shopping_problem_wf [OF wf p])
qed

theorem total_cost_recomputed_witness:
  "status (slv_one prob_one) = Optimal \<and>
   (\<exists>res. solve_shopping_problem slv_one (load_cart doc_one)
             = Inr ([Print_solving, Call_solver prob_one], Some res) \<and>
          total_cost res = recomputed_total (load_cart doc_one) (assignment res) (delivery_costs res) \<and>
          total_cost res = 162)"
proof -
  from total_cost_recomputed [of doc_one] obtain p where
    p: "build_problem (load_cart doc_one) = Inr p"
    and 1: "\<forall>slv. status (slv p) = Optimal \<longrightarrow>
        (\<exists>res. solve_shopping_problem slv (load_cart doc_one)
                  = Inr ([Print_solving, Call_solver p], Some res) \<and>
               total_cost res = recomputed_total (load_cart doc_one) (assignment res) (delivery_costs res))"
    by blast
  from p have pe: "p = prob_one" by (simp add: load_cart_doc_one build_cart_one)
  have s: "status (slv_one prob_one) = Optimal" by (simp add: slv_one_def sol_one_def)
  with 1 obtain res where r: "solve_shopping_problem slv_one (load_cart doc_one)
                  = Inr ([Print_solving, Call_solver prob_one], Some res)"
     "total_cost res = recomputed_total (load_cart doc_one) (assignment res) (delivery_costs res)"
    unfolding pe by blast
  from r(1) have "total_cost res = 162" unfolding load_cart_doc_one solve_one by auto
  with r s show ?thesis by blast
qed

lemma load_cart_doc_two: "load_cart doc_two = cart_two"
  by (simp add: load_cart_def doc_two_def cart_two_def empty_cart_def add_offer_def
      mk_offer_id_def mk_item_id_def dd_append_def Let_def)

lemma build_cart_two: "build_problem cart_two = Inr prob_two"
  unfolding prob_two_def by (simp add: build_defs cart_two_def)

text \<open>
  The claim as written fails: with the feasible assignment \<open>a_two\<close> the objective is
  274, the returned total is 142, and the result is returned as any other.
\<close>

theorem objective_mismatch_counterexample:
  "build_problem (load_cart doc_two) = Inr prob_two \<and>
   feasible prob_two a_two \<and>
   eval a_two (objective prob_two) = 274 \<and>
   solve_shopping_problem slv_two (load_cart doc_two) =
     Inr ([Print_solving, Call_solver prob_two],
          Some \<lparr>assignment = [(''A'', [(''item_0'', ''A_0_0'', 1)])],
                delivery_costs = [(''A'', 132), (''B'', 132)], total_cost = 142\<rparr>)"
proof (intro conjI)
  show "build_problem (load_cart doc_two) = Inr prob_two"
    by (simp add: load_cart_doc_two build_cart_two)
  show "feasible prob_two a_two"
    unfolding prob_two_def
    by (simp add: build_defs cart_two_def feasible_def in_bounds_def a_two_def const_defs)
  show "eval a_two (objective prob_two) = 274"
    unfolding prob_two_def
    by (simp add: build_defs cart_two_def a_two_def const_defs)
  show "solve_shopping_problem slv_two (load_cart doc_two) =
     Inr ([Print_solving, Call_solver prob_two],
          Some \<lparr>assignment = [(''A'', [(''item_0'', ''A_0_0'', 1)])],
                delivery_costs = [(''A'', 132), (''B'', 132)], total_cost = 142\<rparr>)"
    unfolding load_cart_doc_two solve_shopping_problem_def build_cart_two
    by (simp add: slv_two_def a_two_def cart_two_def extract_defs const_defs)
qed

section \<open>Quantities taken from the solver's values\<close>

lemma py_int_positive:
  assumes "0 < v"
  shows "\<bar>of_int (py_int v) - v\<bar> < 1" and "v \<in> \<int> \<Longrightarrow> of_int (py_int v) = v"
proof -
  from assms have f: "py_int v = \<lfloor>v\<rfloor>" by (simp add: py_int_def)
  have "of_int \<lfloor>v\<rfloor> \<le> v" "v < of_int \<lfloor>v\<rfloor> + 1" by linarith+
  then show "\<bar>of_int (py_int v) - v\<bar> < 1" unfolding f by linarith
  show "of_int (py_int v) = v" if "v \<in> \<int>"
    using that unfolding f by (auto elim: Ints_cases)
qed

lemma decoded_order:
  assumes "(s, ords) \<in> set (decoded_assignment c val)" "(it, oid, qty) \<in> set ords"
  shows "\<exists>v. val (Buy oid) = Some v \<and> 0 < v \<and> qty = py_int v"
    and "oid \<in> set (offer_ids c)" and "it = item_id (catalog_entry c oid)"
    and "s = seller (catalog_entry c oid)"
proof -
  from decoded_entry(1) [OF assms(1)] assms(2)
  obtain oid' where o: "oid' \<in> set (offer_ids c)" "bought val oid'"
    "seller (catalog_entry c oid') = s" "(it, oid, qty) = order_of c val oid'"
    by auto
  from o(4) have e: "oid' = oid" "qty = py_int (or0 (val (Buy oid)))"
    "it = item_id (catalog_entry c oid)" by (simp_all add: order_of_def)
  from o(2) e show "\<exists>v. val (Buy oid) = Some v \<and> 0 < v \<and> qty = py_int v"
    by (auto simp: bought_def or0_def split: option.splits)
  from o e show "oid \<in> set (offer_ids c)" "it = item_id (catalog_entry c oid)"
    "s = seller (catalog_entry c oid)" by simp_all
qed

lemma decoded_get:
  "dd_get (decoded_assignment c val) s =
     map (order_of c val)
       (filter (\<lambda>oid. bought val oid \<and> seller (catalog_entry c oid) = s) (offer_ids c))"
proof -
  have e: "dd_get ([] :: (string \<times> orders) list) s = []" by (simp add: dd_get_def)
  show ?thesis unfolding decoded_assignment_def fold_orders_get e by simp
qed

lemma dd_get_mem: "v \<in> set (dd_get d k) \<Longrightarrow> (k, dd_get d k) \<in> set d"
  by (cases "map_of d k") (auto simp: dd_get_def dest: map_of_SomeD)

lemma decoded_records:
  assumes wf: "cart_wf c" and e: "(oid, r) \<in> set (offer_catalog c)"
    and v: "val (Buy oid) = Some v" "0 < v"
  shows "\<exists>ords. (seller r, ords) \<in> set (decoded_assignment c val) \<and>
           (item_id r, oid, py_int v) \<in> set ords"
proof -
  from cart_wf_entry_lookup [OF wf e] have oid: "oid \<in> set (offer_ids c)"
    and r: "catalog_entry c oid = r" by simp_all
  from v have b: "bought val oid" by (simp add: bought_def)
  from v r have o: "order_of c val oid = (item_id r, oid, py_int v)"
    by (simp add: order_of_def or0_def)
  from oid b r have "order_of c val oid \<in> set (dd_get (decoded_assignment c val) (seller r))"
    unfolding decoded_get by simp
  with dd_get_mem [of "order_of c val oid" "decoded_assignment c val" "seller r"] o
  show ?thesis by auto
qed

lemma bought_iff: "bought val oid \<longleftrightarrow> (case val (Buy oid) of None \<Rightarrow> False | Some v \<Rightarrow> 0 < v)"
  by (auto simp: bought_def split: option.splits)

lemma decoded_count:
  assumes wf: "cart_wf c"
  shows "length (all_orders (decoded_assignment c val)) =
     length (filter (\<lambda>(oid, r). case val (Buy oid) of None \<Rightarrow> False | Some v \<Rightarrow> 0 < v)
               (offer_catalog c))"
proof -
  have "int (length (all_orders (decoded_assignment c val)))
      = sum_list (map (\<lambda>t. 1) (all_orders (decoded_assignment c val)))"
    by (simp add: sum_list_triv)
  also have "\<dots> = (\<Sum>oid\<leftarrow>filter (bought val) (offer_ids c). 1)" by (rule decoded_sum)
  also have "\<dots> = int (length (filter (bought val) (offer_ids c)))" by (simp add: sum_list_triv)
  finally have 1: "length (all_orders (decoded_assignment c val)) = length (filter (bought val) (offer_ids c))"
    by simp
  have "filter (\<lambda>(oid, r). case val (Buy oid) of None \<Rightarrow> False | Some v \<Rightarrow> 0 < v) (offer_catalog c)
      = map (\<lambda>oid. (oid, catalog_entry c oid)) (filter (bought val) (offer_ids c))"
  proof -
    have "bought val = (\<lambda>x. case val (Buy x) of None \<Rightarrow> False | Some v \<Rightarrow> 0 < v)"
      by (rule ext) (rule bought_iff)
    then show ?thesis
      by (subst cart_wf_catalog_list [OF wf]) (simp add: filter_map comp_def)
  qed
  with 1 show ?thesis by simp
qed

text \<open>
  Claim C5, as amended. For every solve that ends with status \<open>Optimal\<close> a plan is
  returned, whatever the values: no tolerance is checked and no deviation is a failure.
  For every offer of the catalog whose \<open>buy\<close> variable has a value that is present and
  positive, the plan holds under the offer's seller a triple of the offer's item, the offer
  and an integer quantity that differs from the value by less than one and is equal to it
  when the value is an integer. Every triple of the plan comes from such a value, and the
  plan has as many triples as there are such offers.
\<close>

theorem positive_values_recorded_unchecked:
  "\<exists>p. build_problem (load_cart d) = Inr p \<and>
     (\<forall>slv. status (slv p) = Optimal \<longrightarrow>
        (\<exists>evs res. solve_shopping_problem slv (load_cart d) = Inr (evs, Some res) \<and>
           (\<forall>(oid, r) \<in> set (offer_catalog (load_cart d)). \<forall>v.
              varValue (slv p) (Buy oid) = Some v \<and> 0 < v \<longrightarrow>
              (\<exists>ords qty. (seller r, ords) \<in> set (assignment res) \<and>
                 (item_id r, oid, qty) \<in> set ords \<and>
                 \<bar>of_int qty - v\<bar> < 1 \<and> (v \<in> \<int> \<longrightarrow> of_int qty = v))) \<and>
           (\<forall>(s, ords) \<in> set (assignment res). \<forall>(it, oid, qty) \<in> set ords.
              \<exists>v. varValue (slv p) (Buy oid) = Some v \<and> 0 < v \<and>
                  \<bar>of_int qty - v\<bar> < 1 \<and> (v \<in> \<int> \<longrightarrow> of_int qty = v)) \<and>
           length (all_orders (assignment res)) =
             length (filter (\<lambda>(oid, r). case varValue (slv p) (Buy oid) of
                                           None \<Rightarrow> False | Some v \<Rightarrow> 0 < v)
                       (offer_catalog (load_cart d)))))"
proof -
  let ?c = "load_cart d"
  have wf: "cart_wf ?c" by (rule load_cart_wf)
  from build_problem_total [OF wf] obtain p where p: "build_problem ?c = Inr p" ..
  have "\<exists>evs res. solve_shopping_problem slv ?c = Inr (evs, Some res) \<and>
           (\<forall>(oid, r) \<in> set (offer_catalog ?c). \<forall>v.
              varValue (slv p) (Buy oid) = Some v \<and> 0 < v \<longrightarrow>
              (\<exists>ords qty. (seller r, ords) \<in> set (assignment res) \<and>
                 (item_id r, oid, qty) \<in> set ords \<and>
                 \<bar>of_int qty - v\<bar> < 1 \<and> (v \<in> \<int> \<longrightarrow> of_int qty = v))) \<and>
           (\<forall>(s, ords) \<in> set (assignment res). \<forall>(it, oid, qty) \<in> set ords.
              \<exists>v. varValue (slv p) (Buy oid) = Some v \<and> 0 < v \<and>
                  \<bar>of_int qty - v\<bar> < 1 \<and> (v \<in> \<int> \<longrightarrow> of_int qty = v)) \<and>
           length (all_orders (assignment res)) =
             length (filter (\<lambda>(oid, r). case varValue (slv p) (Buy oid) of
                                           None \<Rightarrow> False | Some v \<Rightarrow> 0 < v)
                       (offer_catalog ?c))"
    if st: "status (slv p) = Optimal" for slv
  proof -
    let ?val = "varValue (slv p)"
    let ?res = "\<lparr>assignment = decoded_assignment ?c ?val,
                  delivery_costs = extract_delivery_costs ?val (sellers_of ?c),
                  total_cost = recomputed_total ?c (decoded_assignment ?c ?val)
                         (extract_delivery_costs ?val (sellers_of ?c))\<rparr>"
    from st have sv: "solve_shopping_problem slv ?c = Inr ([Print_solving, Call_solver p], Some ?res)"
      by (simp add: solve_shopping_problem_wf [OF wf p])
    have fwd: "\<exists>ords qty. (seller r, ords) \<in> set (assignment ?res) \<and>
                 (item_id r, oid, qty) \<in> set ords \<and>
                 \<bar>of_int qty - v\<bar> < 1 \<and> (v \<in> \<int> \<longrightarrow> of_int qty = v)"
      if "(oid, r) \<in> set (offer_catalog ?c)" "?val (Buy oid) = Some v \<and> 0 < v" for oid r v
    proof -
      from that(2) have v: "?val (Buy oid) = Some v" "0 < v" by simp_all
      from decoded_records [of ?c oid r ?val v, OF wf that(1) v] obtain ords where
        "(seller r, ords) \<in> set (decoded_assignment ?c ?val)" "(item_id r, oid, py_int v) \<in> set ords"
        by blast
      with py_int_positive [OF v(2)] show ?thesis by auto
    qed
    have bwd: "\<exists>v. ?val (Buy oid) = Some v \<and> 0 < v \<and>
                  \<bar>of_int qty - v\<bar> < 1 \<and> (v \<in> \<int> \<longrightarrow> of_int qty = v)"
      if "(s, ords) \<in> set (assignment ?res)" "(it, oid, qty) \<in> set ords" for s ords it oid qty
    proof -
      from that have "(s, ords) \<in> set (decoded_assignment ?c ?val)" by simp
      from decoded_order(1) [OF this that(2)] obtain v where
        v: "?val (Buy oid) = Some v" "0 < v" "qty = py_int v" by blast
      with py_int_positive [OF v(2)] show ?thesis by blast
    qed
    have cnt: "length (all_orders (assignment ?res)) =
             length (filter (\<lambda>(oid, r). case ?val (Buy oid) of None \<Rightarrow> False | Some v \<Rightarrow> 0 < v)
                       (offer_catalog ?c))"
      by (simp add: decoded_count [OF wf])
    from fwd have f: "\<forall>(oid, r) \<in> set (offer_catalog ?c). \<forall>v.
              ?val (Buy oid) = Some v \<and> 0 < v \<longrightarrow>
              (\<exists>ords qty. (seller r, ords) \<in> set (assignment ?res) \<and>
                 (item_id r, oid, qty) \<in> set ords \<and>
                 \<bar>of_int qty - v\<bar> < 1 \<and> (v \<in> \<int> \<longrightarrow> of_int qty = v))"
      by blast
    from bwd have b: "\<forall>(s, ords) \<in> set (assignment ?res). \<forall>(it, oid, qty) \<in> set ords.
              \<exists>v. ?val (Buy oid) = Some v \<and> 0 < v \<and>
                  \<bar>of_int qty - v\<bar> < 1 \<and> (v \<in> \<int> \<longrightarrow> of_int qty = v)"
      by blast
    from sv f b cnt show ?thesis by blast
  qed
  with p show ?thesis by blast
qed

theorem positive_values_recorded_unchecked_witness:
  "status (slv_one prob_one) = Optimal \<and>
   (''A_0_1'', \<lparr>item_id = ''item_0'', cost = 10, available = 10, seller = ''A''\<rparr>)
      \<in> set (offer_catalog (load_cart doc_one)) \<and>
   varValue (slv_one prob_one) (Buy ''A_0_1'') = Some 3 \<and> (0::rat) < 3 \<and> (3::rat) \<in> \<int> \<and>
   (\<exists>evs res ords. solve_shopping_problem slv_one (load_cart doc_one) = Inr (evs, Some res) \<and>
       (''A'', ords) \<in> set (assignment res) \<and> (''item_0'', ''A_0_1'', 3) \<in> set ords \<and>
       length (all_orders (assignment res)) = 1)"
proof -
  let ?r = "\<lparr>item_id = ''item_0'', cost = 10, available = 10, seller = ''A''\<rparr>"
  from positive_values_recorded_unchecked [of doc_one] obtain p where
    p: "build_problem (load_cart doc_one) = Inr p"
    and 1: "\<forall>slv. status (slv p) = Optimal \<longrightarrow>
        (\<exists>evs res. solve_shopping_problem slv (load_cart doc_one) = Inr (evs, Some res) \<and>
           (\<forall>(oid, r) \<in> set (offer_catalog (load_cart doc_one)). \<forall>v.
              varValue (slv p) (Buy oid) = Some v \<and> 0 < v \<longrightarrow>
              (\<exists>ords qty. (seller r, ords) \<in> set (assignment res) \<and>
                 (item_id r, oid, qty) \<in> set ords \<and>
                 \<bar>of_int qty - v\<bar> < 1 \<and> (v \<in> \<int> \<longrightarrow> of_int qty = v))) \<and>
           (\<forall>(s, ords) \<in> set (assignment res). \<forall>(it, oid, qty) \<in> set ords.
              \<exists>v. varValue (slv p) (Buy oid) = Some v \<and> 0 < v \<and>
                  \<bar>of_int qty - v\<bar> < 1 \<and> (v \<in> \<int> \<longrightarrow> of_int qty = v)) \<and>
           length (all_orders (assignment res)) =
             length (filter (\<lambda>(oid, r). case varValue (slv p) (Buy oid) of
                                           None \<Rightarrow> False | Some v \<Rightarrow> 0 < v)
                       (offer_catalog (load_cart doc_one))))"
    by blast
  from p have pe: "p = prob_one" by (simp add: load_cart_doc_one build_cart_one)
  have s: "status (slv_one prob_one) = Optimal" by (simp add: slv_one_def sol_one_def)
  have m: "(''A_0_1'', ?r) \<in> set (offer_catalog (load_cart doc_one))"
    by (simp add: load_cart_doc_one cart_one_def)
  have v3: "varValue (slv_one prob_one) (Buy ''A_0_1'') = Some 3"
    by (simp add: slv_one_def sol_one_def a_one_def)
  have i3: "(3::rat) \<in> \<int>" by simp
  from 1 s obtain evs res where
    sv: "solve_shopping_problem slv_one (load_cart doc_one) = Inr (evs, Some res)"
    and fwd: "\<forall>(oid, r) \<in> set (offer_catalog (load_cart doc_one)). \<forall>v.
              varValue (slv_one prob_one) (Buy oid) = Some v \<and> 0 < v \<longrightarrow>
              (\<exists>ords qty. (seller r, ords) \<in> set (assignment res) \<and>
                 (item_id r, oid, qty) \<in> set ords \<and>
                 \<bar>of_int qty - v\<bar> < 1 \<and> (v \<in> \<int> \<longrightarrow> of_int qty = v))"
    and cnt: "length (all_orders (assignment res)) =
             length (filter (\<lambda>(oid, r). case varValue (slv_one prob_one) (Buy oid) of
                                           None \<Rightarrow> False | Some v \<Rightarrow> 0 < v)
                       (offer_catalog (load_cart doc_one)))"
    unfolding pe by blast
  from fwd m have "\<forall>v. varValue (slv_one prob_one) (Buy ''A_0_1'') = Some v \<and> 0 < v \<longrightarrow>
              (\<exists>ords qty. (seller ?r, ords) \<in> set (assignment res) \<and>
                 (item_id ?r, ''A_0_1'', qty) \<in> set ords \<and>
                 \<bar>of_int qty - v\<bar> < 1 \<and> (v \<in> \<int> \<longrightarrow> of_int qty = v))"
    by blast
  with v3 i3 obtain ords qty where o: "(''A'', ords) \<in> set (assignment res)"
    "(''item_0'', ''A_0_1'', qty) \<in> set ords" "rat_of_int qty = 3"
    by fastforce
  from o(3) have "qty = 3" by linarith
  moreover from cnt have "length (all_orders (assignment res)) = 1"
    by (simp add: load_cart_doc_one cart_one_def v3 slv_one_def sol_one_def a_one_def)
  ultimately show ?thesis using s m v3 i3 sv o by auto
qed

text \<open>
  The claim as written fails: for the value \<open>2.75\<close> the nearest integer is 3, the plan
  records 2, and the result is returned with no failure.
\<close>

lemma floor_examples:
  "\<lfloor>11 / 4 :: rat\<rfloor> = 2" "\<lfloor>16777215 / 16777216 :: rat\<rfloor> = 0"
  by (simp_all add: floor_eq_iff)

theorem truncation_counterexample:
  "varValue (slv_frac prob_one) (Buy ''A_0_1'') = Some (11 / 4) \<and>
   py_round (11 / 4) = 3 \<and>
   solve_shopping_problem slv_frac (load_cart doc_one) =
     Inr ([Print_solving, Call_solver prob_one],
          Some \<lparr>assignment = [(''A'', [(''item_0'', ''A_0_1'', 2)])],
                delivery_costs = [(''A'', 132)], total_cost = 152\<rparr>)"
proof (intro conjI)
  show "varValue (slv_frac prob_one) (Buy ''A_0_1'') = Some (11 / 4)"
    by (simp add: slv_frac_def)
  from floor_examples(1) show "py_round (11 / 4) = 3" unfolding py_round_def Let_def by simp
  show "solve_shopping_problem slv_frac (load_cart doc_one) =
     Inr ([Print_solving, Call_solver prob_one],
          Some \<lparr>assignment = [(''A'', [(''item_0'', ''A_0_1'', 2)])],
                delivery_costs = [(''A'', 132)], total_cost = 152\<rparr>)"
    unfolding load_cart_doc_one solve_shopping_problem_def build_cart_one
    by (simp add: slv_frac_def a_one_def cart_one_def extract_defs const_defs floor_examples)
qed

text \<open>
  What holds of every returned plan, whatever the values: no seller has an empty list, no
  quantity is negative, and a quantity is positive exactly when the solver's value is at
  least 1.
\<close>

lemma returned_plan_shape:
  assumes wf: "cart_wf c" and p: "build_problem c = Inr p" and st: "status (slv p) = Optimal"
    and sv: "solve_shopping_problem slv c = Inr (evs, Some res)"
    and e: "(s, ords) \<in> set (assignment res)"
  shows "ords \<noteq> []"
    and "(it, oid, qty) \<in> set ords \<Longrightarrow>
           \<exists>v. varValue (slv p) (Buy oid) = Some v \<and> 0 < v \<and> 0 \<le> qty \<and> (0 < qty \<longleftrightarrow> 1 \<le> v)"
proof -
  from sv st have a: "assignment res = decoded_assignment c (varValue (slv p))"
    by (auto simp: solve_shopping_problem_wf [OF wf p])
  with e have e': "(s, ords) \<in> set (decoded_assignment c (varValue (slv p)))" by simp
  from decoded_entry(2) [OF e'] show "ords \<noteq> []" .
  assume "(it, oid, qty) \<in> set ords"
  from decoded_order(1) [OF e' this] obtain v where
    v: "varValue (slv p) (Buy oid) = Some v" "0 < v" "qty = py_int v" by blast
  from v(2) have "py_int v = \<lfloor>v\<rfloor>" by (simp add: py_int_def)
  with v have "0 \<le> qty" "0 < qty \<longleftrightarrow> 1 \<le> v" by (simp_all add: floor_less_iff less_floor_iff)
  with v show "\<exists>v. varValue (slv p) (Buy oid) = Some v \<and> 0 < v \<and> 0 \<le> qty \<and> (0 < qty \<longleftrightarrow> 1 \<le> v)"
    by blast
qed

lemma load_cart_doc_unit: "load_cart doc_unit = cart_unit"
  by (simp add: load_cart_def doc_unit_def cart_unit_def empty_cart_def add_offer_def
      mk_offer_id_def mk_item_id_def dd_append_def Let_def)

lemma build_cart_unit: "build_problem cart_unit = Inr prob_unit"
  unfolding prob_unit_def by (simp add: build_defs cart_unit_def)

text \<open>
  Claim C10 at a failing input: the solver's value \<open>1 - 2\<^sup>-\<^sup>2\<^sup>4\<close> passes the test of
  line 108, \<open>round\<close> would give 1, and the triple recorded by line 110 has quantity 0.
\<close>

theorem zero_quantity_recorded:
  "varValue (slv_near_one prob_unit) (Buy ''A_0_0'') = Some (16777215 / 16777216) \<and>
   py_round (16777215 / 16777216) = 1 \<and>
   solve_shopping_problem slv_near_one (load_cart doc_unit) =
     Inr ([Print_solving, Call_solver prob_unit],
          Some \<lparr>assignment = [(''A'', [(''item_0'', ''A_0_0'', 0)])],
                delivery_costs = [(''A'', 132)], total_cost = 132\<rparr>)"
proof (intro conjI)
  show "varValue (slv_near_one prob_unit) (Buy ''A_0_0'') = Some (16777215 / 16777216)"
    by (simp add: slv_near_one_def)
  from floor_examples(2) show "py_round (16777215 / 16777216) = 1" unfolding py_round_def Let_def by simp
  show "solve_shopping_problem slv_near_one (load_cart doc_unit) =
     Inr ([Print_solving, Call_solver prob_unit],
          Some \<lparr>assignment = [(''A'', [(''item_0'', ''A_0_0'', 0)])],
                delivery_costs = [(''A'', 132)], total_cost = 132\<rparr>)"
    unfolding load_cart_doc_unit solve_shopping_problem_def build_cart_unit
    by (simp add: slv_near_one_def cart_unit_def extract_defs const_defs floor_examples)
qed

subsection \<open>An answer within tolerance of a feasible assignment\<close>

lemma solve_near_one:
  "solve_shopping_problem slv_near_one (load_cart doc_unit) =
     Inr ([Print_solving, Call_solver prob_unit],
          Some \<lparr>assignment = [(''A'', [(''item_0'', ''A_0_0'', 0)])],
                delivery_costs = [(''A'', SMALL_DEL)], total_cost = 132\<rparr>)"
  unfolding load_cart_doc_unit solve_shopping_problem_def build_cart_unit
  by (simp add: slv_near_one_def cart_unit_def extract_defs const_defs floor_examples)

lemma near_unit: "near_solution prob_unit (slv_near_one prob_unit) a_unit (1 / 16777216)"
  unfolding near_solution_def prob_unit_def
  by (simp add: build_defs cart_unit_def feasible_def in_bounds_def a_unit_def const_defs
      slv_near_one_def)

text \<open>
  Claim C1 at a failing input. The problem built from \<open>doc_unit\<close> holds the demand
  constraint \<open>buy[A_0_0] = 1\<close>, and the solver's answer is within \<open>2\<^sup>-\<^sup>2\<^sup>4\<close> of the
  feasible assignment \<open>a_unit\<close>. The returned plan buys 0 units of the item, which needs 1.
\<close>

theorem demand_missed_by_truncation:
  "build_problem (load_cart doc_unit) = Inr prob_unit \<and>
   (''item_0'', 1) \<in> set (items_needed (load_cart doc_unit)) \<and>
   Constraint (LpSum [V (Buy ''A_0_0'')]) EQ (Const 1) \<in> set (constraints prob_unit) \<and>
   near_solution prob_unit (slv_near_one prob_unit) a_unit (1 / 16777216) \<and>
   solve_shopping_problem slv_near_one (load_cart doc_unit) =
     Inr ([Print_solving, Call_solver prob_unit],
          Some \<lparr>assignment = [(''A'', [(''item_0'', ''A_0_0'', 0)])],
                delivery_costs = [(''A'', SMALL_DEL)], total_cost = 132\<rparr>) \<and>
   plan_item_qty [(''A'', [(''item_0'', ''A_0_0'', 0)])] ''item_0'' = 0"
proof (intro conjI)
  show "build_problem (load_cart doc_unit) = Inr prob_unit"
    by (simp add: load_cart_doc_unit build_cart_unit)
  show "(''item_0'', 1) \<in> set (items_needed (load_cart doc_unit))"
    by (simp add: load_cart_doc_unit cart_unit_def)
  show "Constraint (LpSum [V (Buy ''A_0_0'')]) EQ (Const 1) \<in> set (constraints prob_unit)"
    unfolding prob_unit_def by (simp add: build_defs cart_unit_def)
  show "near_solution prob_unit (slv_near_one prob_unit) a_unit (1 / 16777216)"
    by (rule near_unit)
  show "solve_shopping_problem slv_near_one (load_cart doc_unit) =
     Inr ([Print_solving, Call_solver prob_unit],
          Some \<lparr>assignment = [(''A'', [(''item_0'', ''A_0_0'', 0)])],
                delivery_costs = [(''A'', SMALL_DEL)], total_cost = 132\<rparr>)"
    by (rule solve_near_one)
  show "plan_item_qty [(''A'', [(''item_0'', ''A_0_0'', 0)])] ''item_0'' = 0"
    by (simp add: plan_item_qty_def all_orders_def)
qed

text \<open>
  Claim C3 at a failing input. On the same answer the small-tier indicator rounds to 1, so
  seller \<open>A\<close> is in the returned plan with the small fee, for 1 to 4 units, while the
  quantities of its list add up to 0.
\<close>

theorem tier_bounds_missed_by_truncation:
  "build_problem (load_cart doc_unit) = Inr prob_unit \<and>
   near_solution prob_unit (slv_near_one prob_unit) a_unit (1 / 16777216) \<and>
   a_unit (Small_del ''A'') = 1 \<and> a_unit (Qty_seller ''A'') = 1 \<and>
   py_round (or0 (varValue (slv_near_one prob_unit) (Small_del ''A''))) = 1 \<and>
   solve_shopping_problem slv_near_one (load_cart doc_unit) =
     Inr ([Print_solving, Call_solver prob_unit],
          Some \<lparr>assignment = [(''A'', [(''item_0'', ''A_0_0'', 0)])],
                delivery_costs = [(''A'', SMALL_DEL)], total_cost = 132\<rparr>) \<and>
   orders_qty [(''item_0'', ''A_0_0'', 0)] = 0"
proof (intro conjI)
  show "build_problem (load_cart doc_unit) = Inr prob_unit"
    by (simp add: load_cart_doc_unit build_cart_unit)
  show "near_solution prob_unit (slv_near_one prob_unit) a_unit (1 / 16777216)"
    by (rule near_unit)
  show "a_unit (Small_del ''A'') = 1" "a_unit (Qty_seller ''A'') = 1"
    by (simp_all add: a_unit_def)
  show "py_round (or0 (varValue (slv_near_one prob_unit) (Small_del ''A''))) = 1"
    by (simp add: slv_near_one_def or0_def py_round_def)
  show "solve_shopping_problem slv_near_one (load_cart doc_unit) =
     Inr ([Print_solving, Call_solver prob_unit],
          Some \<lparr>assignment = [(''A'', [(''item_0'', ''A_0_0'', 0)])],
                delivery_costs = [(''A'', SMALL_DEL)], total_cost = 132\<rparr>)"
    by (rule solve_near_one)
  show "orders_qty [(''item_0'', ''A_0_0'', 0)] = 0" by (simp add: orders_qty_def)
qed

section \<open>The constant \<open>BIG_M\<close>\<close>

lemma load_cart_doc_big: "load_cart doc_big = cart_big"
  by (simp add: load_cart_def doc_big_def cart_big_def empty_cart_def add_offer_def
      mk_offer_id_def mk_item_id_def dd_append_def Let_def)

lemma build_cart_big: "build_problem cart_big = Inr prob_big"
  unfolding prob_big_def by (simp add: build_defs cart_big_def)

lemma prob_big_infeasible: "\<not> feasible prob_big a"
proof
  assume f: "feasible prob_big a"
  have wf: "cart_wf cart_big" using load_cart_wf [of doc_big] by (simp add: load_cart_doc_big)
  have s: "''A'' \<in> set (sellers_of cart_big)" by (simp add: sellers_of_def cart_big_def)
  have i: "(''item_0'', 100005) \<in> set (items_needed cart_big)" by (simp add: cart_big_def)
  from feasible_holds [OF f demand_constraint_mem [OF wf build_cart_big i]]
  have d: "a (Buy ''A_0_0'') = 100005"
    by (simp add: cart_big_def catalog_entry_def)
  from link_constraints_hold(1) [OF wf build_cart_big f s]
  have q: "a (Qty_seller ''A'') = a (Buy ''A_0_0'')"
    by (simp add: cart_big_def dd_get_def)
  from tier_constraints_hold(2) [OF wf build_cart_big f s]
  have t: "a (Qty_seller ''A'') \<le> 4 + (1 - a (Small_del ''A'')) * BIG_M" .
  from binary_bounds(2) [OF wf build_cart_big f s] have "0 \<le> a (Small_del ''A'')" by simp
  then have "(1 - a (Small_del ''A'')) * BIG_M \<le> 100000" by (simp add: BIG_M_def)
  with t q d show False by simp
qed

text \<open>
  Claim C2 at a failing input. The stock of \<open>doc_big\<close> covers its demand, so the
  availability check passes and the problem is built. The assignment \<open>a_big\<close> respects
  every bound and every constraint but one: the bound \<open>qty_seller \<le> 4 + (1 - small_del) * BIG_M\<close>,
  relaxed because the small tier is off, still cuts off the 100005 units. No assignment at
  all is feasible.
\<close>

theorem big_m_binds_on_large_demand:
  "check_availability (load_cart doc_big) (item_ids_of (load_cart doc_big))
     = Inr ([Print_availability ''u0'' 100005 100005], True) \<and>
   build_problem (load_cart doc_big) = Inr prob_big \<and>
   list_all (in_bounds a_big) (variables prob_big) \<and>
   filter (\<lambda>k. \<not> holds a_big k) (constraints prob_big)
     = [Constraint (V (Qty_seller ''A'')) LE
          (Add (Const 4) (Mul (Sub (Const 1) (V (Small_del ''A''))) (Const BIG_M)))] \<and>
   a_big (Small_del ''A'') = 0 \<and>
   \<not> (\<exists>a. feasible prob_big a)"
proof (intro conjI)
  show "check_availability (load_cart doc_big) (item_ids_of (load_cart doc_big))
     = Inr ([Print_availability ''u0'' 100005 100005], True)"
    unfolding load_cart_doc_big
    by (simp add: cart_big_def item_ids_of_def total_available_def offers_of_item_def getitem_def)
  show "build_problem (load_cart doc_big) = Inr prob_big"
    by (simp add: load_cart_doc_big build_cart_big)
  show "list_all (in_bounds a_big) (variables prob_big)"
    unfolding prob_big_def by (simp add: build_defs cart_big_def in_bounds_def a_big_def)
  show "filter (\<lambda>k. \<not> holds a_big k) (constraints prob_big)
     = [Constraint (V (Qty_seller ''A'')) LE
          (Add (Const 4) (Mul (Sub (Const 1) (V (Small_del ''A''))) (Const BIG_M)))]"
    unfolding prob_big_def by (simp add: build_defs cart_big_def a_big_def BIG_M_def)
  show "a_big (Small_del ''A'') = 0" by (simp add: a_big_def)
  show "\<not> (\<exists>a. feasible prob_big a)" using prob_big_infeasible by blast
qed

end
